theory Spec2Isabelle
  imports Complex_Main "HOL-Library.Word" "HOL-Library.Log_Nat"
begin

section \<open>JavaScript strings\<close>

text \<open>
  A JavaScript string is a sequence of UTF-16 code units; \<open>length\<close>, \<open>substring\<close> and
  \<open>trim\<close> all count and cut code units. String literals of the source that are plain
  ASCII are written through \<open>js\<close>.
\<close>

type_synonym code_unit = "16 word"
type_synonym jsstring = "code_unit list"

definition js :: "string \<Rightarrow> jsstring" where
  "js s = map (\<lambda>c. of_nat (of_char c)) s"

text \<open>
  ECMAScript \<open>WhiteSpace\<close> and \<open>LineTerminator\<close> code points: the set that
  \<open>String.prototype.trim\<close> strips and that the regular expression class \<open>\s\<close> matches.
\<close>

definition isWhiteSpace :: "code_unit \<Rightarrow> bool" where
  "isWhiteSpace c \<longleftrightarrow>
     c = 0x09 \<or> c = 0x0A \<or> c = 0x0B \<or> c = 0x0C \<or> c = 0x0D \<or> c = 0x20 \<or> c = 0xA0 \<or>
     c = 0x1680 \<or> (0x2000 \<le> c \<and> c \<le> 0x200A) \<or> c = 0x2028 \<or> c = 0x2029 \<or>
     c = 0x202F \<or> c = 0x205F \<or> c = 0x3000 \<or> c = 0xFEFF"

definition trim :: "jsstring \<Rightarrow> jsstring" where
  "trim s = rev (dropWhile isWhiteSpace (rev (dropWhile isWhiteSpace s)))"

text \<open>
  \<open>s.substring(start, end)\<close> for non-negative integer arguments: both are clamped to the
  length and swapped when out of order.
\<close>

definition substring :: "jsstring \<Rightarrow> nat \<Rightarrow> nat \<Rightarrow> jsstring" where
  "substring s start end' =
     (let len = length s;
          finalStart = min start len;
          finalEnd = min end' len;
          from = min finalStart finalEnd;
          to = max finalStart finalEnd
      in take (to - from) (drop from s))"

section \<open>JavaScript numbers\<close>

text \<open>
  A JavaScript number is an IEEE 754 double. A finite double is written here as the
  rational number it denotes. \<open>fl\<close> rounds a rational to the nearest number with a 53-bit
  significand, ties to the even significand, as every arithmetic operation of the
  language does with its exact result.
\<close>

definition pow2 :: "int \<Rightarrow> rat" where
  "pow2 k = (if 0 \<le> k then 2 ^ nat k else 1 / 2 ^ nat (- k))"

text \<open>The binary exponent of a positive rational \<open>x\<close>: the \<open>e\<close> with \<open>2^e \<le> x < 2^(e+1)\<close>.\<close>

definition expo :: "rat \<Rightarrow> int" where
  "expo x =
     (let (p, q) = quotient_of x; k = bitlen p - bitlen q
      in if pow2 k \<le> x then k else k - 1)"

definition round_half_even :: "rat \<Rightarrow> int" where
  "round_half_even y =
     (let f = \<lfloor>y\<rfloor>; d = y - of_int f
      in if d < 1 / 2 then f else if 1 / 2 < d then f + 1 else if even f then f else f + 1)"

definition fl :: "rat \<Rightarrow> rat" where
  "fl x =
     (if x = 0 then 0
      else let ulp = pow2 (expo \<bar>x\<bar> - 52) in of_int (round_half_even (x / ulp)) * ulp)"

text \<open>
  The result of an operation whose exact value is \<open>x\<close>. \<open>None\<close> stands for the results
  that are not normal finite doubles or zero (subnormal numbers, the infinities, NaN),
  which are not modelled.
\<close>

definition to_double :: "rat \<Rightarrow> rat option" where
  "to_double x =
     (if x = 0 then Some 0
      else if \<bar>x\<bar> < pow2 (- 1022) then None
      else if pow2 1024 \<le> \<bar>fl x\<bar> then None
      else Some (fl x))"

text \<open>A count in the JSON of a response, read as a number.\<close>

definition number_of_nat :: "nat \<Rightarrow> rat option" where
  "number_of_nat n = to_double (of_nat n)"

text \<open>\<open>a / b\<close> and \<open>a * b\<close> on numbers; division by zero gives an infinity or NaN.\<close>

definition number_div :: "rat \<Rightarrow> rat \<Rightarrow> rat option" where
  "number_div a b = (if b = 0 then None else to_double (a / b))"

definition number_mul :: "rat \<Rightarrow> rat \<Rightarrow> rat option" where
  "number_mul a b = to_double (a * b)"

text \<open>The decimal digits of a natural number, most significant first.\<close>

definition digit :: "nat \<Rightarrow> code_unit" where
  "digit d = 0x30 + of_nat d"

function digits :: "nat \<Rightarrow> jsstring" where
  "digits n = (if n < 10 then [digit n] else digits (n div 10) @ [digit (n mod 10)])"
  by pat_completeness auto
termination
  by (relation "measure (\<lambda>n. n)") auto

declare digits.simps [simp del]

text \<open>
  \<open>Number.prototype.toFixed(f)\<close> on a finite number \<open>x\<close>: the sign is split off; \<open>n\<close> is
  the integer for which \<open>n / 10^f - x\<close> is as close to zero as possible, the larger one if
  there are two; its digits are padded with zeros to \<open>f + 1\<close> places and the decimal point
  is put before the last \<open>f\<close> (\<open>fixed_digits\<close>). From \<open>10^21\<close> on the result is in
  exponent notation, which is not modelled (\<open>None\<close>).
\<close>

definition fixed_digits :: "nat \<Rightarrow> nat \<Rightarrow> jsstring" where
  "fixed_digits f n =
     (let m = digits n;
          m' = (if f \<noteq> 0 \<and> length m \<le> f then replicate (f + 1 - length m) 0x30 @ m else m);
          k = length m'
      in if f \<noteq> 0 then take (k - f) m' @ js ''.'' @ drop (k - f) m' else m')"

definition toFixed :: "nat \<Rightarrow> rat \<Rightarrow> jsstring option" where
  "toFixed f x =
     (if 10 ^ 21 \<le> \<bar>x\<bar> then None
      else
        let n = nat \<lfloor>\<bar>x\<bar> * 10 ^ f + 1 / 2\<rfloor>
        in Some (if x < 0 then js ''-'' @ fixed_digits f n else fixed_digits f n))"

text \<open>
  The decimal numeral with exactly one fractional digit that denotes \<open>n / 10\<close>:
  \<open>one_decimal 287\<close> is \<open>28.7\<close>, \<open>one_decimal 5\<close> is \<open>0.5\<close>.
\<close>

definition one_decimal :: "nat \<Rightarrow> jsstring" where
  "one_decimal n = digits (n div 10) @ js ''.'' @ [digit (n mod 10)]"

section \<open>AdminDashboard.jsx: the comment cell of the feedback table\<close>

text \<open>
  \<^verbatim>\<open>feedback.comment.length > 100 ? `${feedback.comment.substring(0, 100)}...` : feedback.comment\<close>
\<close>

definition display_comment :: "jsstring \<Rightarrow> jsstring" where
  "display_comment comment =
     (if length comment > 100 then substring comment 0 100 @ js ''...'' else comment)"

section \<open>AdminDashboard.jsx: the sentiment analysis summary\<close>

text \<open>The summary object, as the backend sends it and the dashboard holds it.\<close>

record summary =
  s_Positive :: nat
  s_Negative :: nat
  s_Neutral :: nat
  s_Total :: nat

text \<open>The initial state of the dashboard's \<open>summary\<close>.\<close>

definition summary_initial :: summary where
  "summary_initial = \<lparr>s_Positive = 0, s_Negative = 0, s_Neutral = 0, s_Total = 0\<rparr>"

text \<open>\<^verbatim>\<open>((count / summary.Total) * 100).toFixed(1)\<close>\<close>

definition percentage :: "nat \<Rightarrow> nat \<Rightarrow> jsstring option" where
  "percentage cnt tot =
     Option.bind (number_of_nat cnt) (\<lambda>c.
     Option.bind (number_of_nat tot) (\<lambda>t.
     Option.bind (number_div c t) (\<lambda>q.
     Option.bind (number_mul q 100) (\<lambda>p.
     toFixed 1 p))))"

text \<open>The text of a percentage cell: \<^verbatim>\<open>{(...).toFixed(1)}%\<close>.\<close>

definition percent_cell :: "nat \<Rightarrow> nat \<Rightarrow> jsstring option" where
  "percent_cell cnt tot = map_option (\<lambda>s. s @ js ''%'') (percentage cnt tot)"

text \<open>
  \<open>n / 10\<close> is a one-decimal value nearest to the exact percentage \<open>cnt / tot \<times> 100\<close>:
  no further from it than half a tenth.
\<close>

definition nearest_tenth :: "nat \<Rightarrow> nat \<Rightarrow> nat \<Rightarrow> bool" where
  "nearest_tenth n cnt tot \<longleftrightarrow>
     \<bar>of_nat n / 10 - 100 * of_nat cnt / of_nat tot\<bar> \<le> (1 / 20 :: rat)"

text \<open>
  \<^verbatim>\<open>{summary.Total > 0 && (...)}\<close>: the three percentage cells (Positive, Negative,
  Neutral) are rendered only when \<open>Total\<close> is positive; otherwise nothing is rendered in
  their place and no percentage is evaluated.
\<close>

definition summary_percentages ::
  "summary \<Rightarrow> (jsstring option \<times> jsstring option \<times> jsstring option) option" where
  "summary_percentages s =
     (if s_Total s > 0
      then Some (percent_cell (s_Positive s) (s_Total s),
                 percent_cell (s_Negative s) (s_Total s),
                 percent_cell (s_Neutral s) (s_Total s))
      else None)"

section \<open>Feedback page: form state, validation and submission\<close>

text \<open>
  The component state that the form handlers read or write. The rating is \<open>0\<close> until a
  star is clicked. The hover state of the stars and the loading flag of the list of
  previous feedbacks play no part in validation or submission and are left out.
\<close>

record feedback_formData =
  fb_rating :: nat
  fb_comment :: jsstring

text \<open>The \<open>errors\<close> object of \<open>validateForm\<close>: a key is present or absent.\<close>

record feedback_errors =
  fe_rating :: "jsstring option"
  fe_comment :: "jsstring option"

text \<open>A stored feedback as the backend returns it.\<close>

record feedback_item =
  fi_id :: nat
  fi_rating :: nat
  fi_comment :: jsstring
  fi_sentiment :: jsstring
  fi_created_at :: jsstring

record feedback_state =
  fb_formData :: feedback_formData
  fb_loading :: bool
  fb_error :: jsstring
  fb_success :: jsstring
  fb_formErrors :: feedback_errors
  fb_sentimentResult :: "jsstring option"
  fb_feedbacks :: "feedback_item list"

text \<open>
  The \<open>user\<close> prop of the page is \<open>null\<close> (here \<open>None\<close>) or an object; the page reads its
  \<open>id\<close> and \<open>name\<close>, and guards for a missing \<open>id\<close> (\<open>user?.id\<close>), so an object
  without one is a value the page expects.
\<close>

record user =
  u_id :: "nat option"
  u_name :: jsstring

text \<open>
  The body of the \<open>submitFeedback\<close> POST request; \<open>user_id\<close> is \<open>user.id\<close>, whatever
  it is.
\<close>

record feedback_request =
  rq_user_id :: "nat option"
  rq_rating :: nat
  rq_comment :: jsstring

definition fb_initial :: feedback_state where
  "fb_initial =
     \<lparr>fb_formData = \<lparr>fb_rating = 0, fb_comment = []\<rparr>,
      fb_loading = False, fb_error = [], fb_success = [],
      fb_formErrors = \<lparr>fe_rating = None, fe_comment = None\<rparr>,
      fb_sentimentResult = None, fb_feedbacks = []\<rparr>"

text \<open>
  \<open>validateForm\<close> builds the \<open>errors\<close> object; \<open>Object.keys(errors).length === 0\<close> is
  \<open>fb_no_errors\<close>.
\<close>

definition fb_validateForm :: "feedback_formData \<Rightarrow> feedback_errors" where
  "fb_validateForm fd =
     \<lparr>fe_rating = (if fb_rating fd = 0 then Some (js ''Please select a rating'') else None),
      fe_comment =
        (if trim (fb_comment fd) = [] then Some (js ''Please enter your feedback'')
         else if length (trim (fb_comment fd)) < 5
           then Some (js ''Feedback must be at least 5 characters'')
         else None)\<rparr>"

definition fb_no_errors :: "feedback_errors \<Rightarrow> bool" where
  "fb_no_errors e \<longleftrightarrow> fe_rating e = None \<and> fe_comment e = None"

text \<open>
  \<open>handleSubmit\<close> up to the \<open>await\<close>: the new component state and the request issued,
  if any. The argument of \<open>submitFeedback\<close> is built inside the \<open>try\<close>: when \<open>user\<close> is
  \<open>null\<close>, reading \<open>user.id\<close> throws a TypeError before anything is sent; the \<open>catch\<close>
  shows its message (\<open>type_error_message\<close>, the engine's text) or, if that is empty, the
  default one, and the \<open>finally\<close> clears the loading flag.
\<close>

definition fb_handleSubmit ::
  "jsstring \<Rightarrow> user option \<Rightarrow> feedback_state \<Rightarrow> feedback_state \<times> feedback_request option" where
  "fb_handleSubmit type_error_message user st =
     (let errors = fb_validateForm (fb_formData st);
          st1 = st\<lparr>fb_formErrors := errors\<rparr>
      in if \<not> fb_no_errors errors then (st1, None)
         else
           (let st2 = st1\<lparr>fb_loading := True, fb_error := [], fb_success := [],
                         fb_sentimentResult := None\<rparr>
            in case user of
                 None \<Rightarrow>
                   (st2\<lparr>fb_error :=
                          (if type_error_message = []
                           then js ''An error occurred. Please try again.''
                           else type_error_message),
                        fb_loading := False\<rparr>,
                    None)
               | Some u \<Rightarrow>
                   (st2,
                    Some \<lparr>rq_user_id = u_id u,
                          rq_rating = fb_rating (fb_formData st),
                          rq_comment = trim (fb_comment (fb_formData st))\<rparr>)))"

text \<open>The textarea's \<open>handleChange\<close> (its \<open>name\<close> is \<open>comment\<close>).\<close>

definition fb_handleChange :: "jsstring \<Rightarrow> feedback_state \<Rightarrow> feedback_state" where
  "fb_handleChange v st =
     st\<lparr>fb_formData := (fb_formData st)\<lparr>fb_comment := v\<rparr>,
        fb_formErrors :=
          (if fe_comment (fb_formErrors st) \<noteq> None \<and> fe_comment (fb_formErrors st) \<noteq> Some []
           then (fb_formErrors st)\<lparr>fe_comment := Some []\<rparr> else fb_formErrors st),
        fb_error := [], fb_sentimentResult := None\<rparr>"

definition fb_handleRatingClick :: "nat \<Rightarrow> feedback_state \<Rightarrow> feedback_state" where
  "fb_handleRatingClick star st =
     st\<lparr>fb_formData := (fb_formData st)\<lparr>fb_rating := star\<rparr>,
        fb_formErrors :=
          (if fe_rating (fb_formErrors st) \<noteq> None \<and> fe_rating (fb_formErrors st) \<noteq> Some []
           then (fb_formErrors st)\<lparr>fe_rating := Some []\<rparr> else fb_formErrors st)\<rparr>"

text \<open>
  The rest of \<open>handleSubmit\<close>, run when the request settles: a successful response
  (with the stored feedback and its sentiment), a response with \<open>success\<close> false, or a
  rejected promise; each carries the message shown.
\<close>

datatype feedback_response =
  ResponseSuccess feedback_item jsstring
  | ResponseFailure jsstring
  | ResponseError jsstring

fun fb_handleResponse :: "feedback_response \<Rightarrow> feedback_state \<Rightarrow> feedback_state" where
  "fb_handleResponse (ResponseSuccess feedback sentiment) st =
     st\<lparr>fb_success := js ''Feedback submitted successfully!'',
        fb_sentimentResult := Some sentiment,
        fb_feedbacks := feedback # fb_feedbacks st,
        fb_formData := \<lparr>fb_rating = 0, fb_comment = []\<rparr>,
        fb_loading := False\<rparr>"
| "fb_handleResponse (ResponseFailure message) st =
     st\<lparr>fb_error := (if message = [] then js ''Failed to submit feedback'' else message),
        fb_loading := False\<rparr>"
| "fb_handleResponse (ResponseError message) st =
     st\<lparr>fb_error := (if message = [] then js ''An error occurred. Please try again.'' else message),
        fb_loading := False\<rparr>"

text \<open>
  The states the page can be in: the rendered stars are \<open>[1, 2, 3, 4, 5]\<close>, so
  \<open>handleRatingClick\<close> is only ever called with one of them. \<open>loadFeedbacks\<close> replaces
  the list of previous feedbacks, and the timer set after a successful submission clears
  the success message.
\<close>

inductive fb_reachable :: "feedback_state \<Rightarrow> bool" where
  fb_reach_initial: "fb_reachable fb_initial"
| fb_reach_change: "fb_reachable st \<Longrightarrow> fb_reachable (fb_handleChange v st)"
| fb_reach_rating: "fb_reachable st \<Longrightarrow> star \<in> {1, 2, 3, 4, 5} \<Longrightarrow>
    fb_reachable (fb_handleRatingClick star st)"
| fb_reach_submit: "fb_reachable st \<Longrightarrow>
    fb_reachable (fst (fb_handleSubmit type_error_message user st))"
| fb_reach_response: "fb_reachable st \<Longrightarrow> fb_reachable (fb_handleResponse r st)"
| fb_reach_loaded: "fb_reachable st \<Longrightarrow> fb_reachable (st\<lparr>fb_feedbacks := fs\<rparr>)"
| fb_reach_timeout: "fb_reachable st \<Longrightarrow> fb_reachable (st\<lparr>fb_success := []\<rparr>)"

section \<open>Login page\<close>

text \<open>
  \<open>String.prototype.toLowerCase\<close>. In a string of ASCII code units only the letters
  \<open>A\<close> to \<open>Z\<close> change, each to the letter 32 places later. For every other string the
  result follows the Unicode case tables and their context rules, which are not part of
  the repository: \<open>unicode_lower\<close> stands for them, and the submit handlers take it as a
  parameter.
\<close>

definition ascii_lower :: "code_unit \<Rightarrow> code_unit" where
  "ascii_lower c = (if 0x41 \<le> c \<and> c \<le> 0x5A then c + 0x20 else c)"

definition toLowerCase :: "(jsstring \<Rightarrow> jsstring) \<Rightarrow> jsstring \<Rightarrow> jsstring" where
  "toLowerCase unicode_lower s =
     (if list_all (\<lambda>c. c < 0x80) s then map ascii_lower s else unicode_lower s)"

record login_formData =
  lg_email :: jsstring
  lg_password :: jsstring

record login_errors =
  le_email :: "jsstring option"
  le_password :: "jsstring option"

record login_state =
  lg_formData :: login_formData
  lg_loading :: bool
  lg_error :: jsstring
  lg_formErrors :: login_errors

record signin_request =
  si_email :: jsstring
  si_password :: jsstring

definition login_validateForm :: "login_formData \<Rightarrow> login_errors" where
  "login_validateForm fd =
     \<lparr>le_email = (if trim (lg_email fd) = [] then Some (js ''Email is required'') else None),
      le_password = (if lg_password fd = [] then Some (js ''Password is required'') else None)\<rparr>"

definition login_no_errors :: "login_errors \<Rightarrow> bool" where
  "login_no_errors e \<longleftrightarrow> le_email e = None \<and> le_password e = None"

text \<open>\<open>handleSubmit\<close> up to the \<open>await signin(...)\<close>.\<close>

definition login_handleSubmit ::
  "(jsstring \<Rightarrow> jsstring) \<Rightarrow> login_state \<Rightarrow> login_state \<times> signin_request option" where
  "login_handleSubmit unicode_lower st =
     (let errors = login_validateForm (lg_formData st);
          st1 = st\<lparr>lg_formErrors := errors\<rparr>
      in if \<not> login_no_errors errors then (st1, None)
         else (st1\<lparr>lg_loading := True, lg_error := []\<rparr>,
               Some \<lparr>si_email = toLowerCase unicode_lower (trim (lg_email (lg_formData st))),
                     si_password = lg_password (lg_formData st)\<rparr>))"

section \<open>Signup page\<close>

record signup_formData =
  su_name :: jsstring
  su_email :: jsstring
  su_password :: jsstring
  su_confirmPassword :: jsstring

record signup_errors =
  se_name :: "jsstring option"
  se_email :: "jsstring option"
  se_password :: "jsstring option"
  se_confirmPassword :: "jsstring option"

record signup_state =
  su_formData :: signup_formData
  su_loading :: bool
  su_error :: jsstring
  su_success :: jsstring
  su_formErrors :: signup_errors

record signup_request =
  sr_name :: jsstring
  sr_email :: jsstring
  sr_password :: jsstring

text \<open>
  \<^verbatim>\<open>/^[^\s@]+@[^\s@]+\.[^\s@]+$/.test(s)\<close>: \<open>email_plain\<close> is the class \<open>[^\s@]\<close>. The
  first \<open>+\<close> must take the whole run of plain units before the first \<open>@\<close>; what follows
  that \<open>@\<close> must be plain throughout and hold a full stop that is neither its first nor
  its last unit.
\<close>

definition email_plain :: "code_unit \<Rightarrow> bool" where
  "email_plain c \<longleftrightarrow> \<not> isWhiteSpace c \<and> c \<noteq> 0x40"

definition emailRegex_test :: "jsstring \<Rightarrow> bool" where
  "emailRegex_test s =
     (takeWhile email_plain s \<noteq> [] \<and>
      (case dropWhile email_plain s of
         [] \<Rightarrow> False
       | c # domain \<Rightarrow>
           c = 0x40 \<and> list_all email_plain domain \<and> 0x2E \<in> set (butlast (tl domain))))"

definition signup_validateForm :: "signup_formData \<Rightarrow> signup_errors" where
  "signup_validateForm fd =
     \<lparr>se_name =
        (if trim (su_name fd) = [] then Some (js ''Name is required'')
         else if length (trim (su_name fd)) < 2 then Some (js ''Name must be at least 2 characters'')
         else None),
      se_email =
        (if trim (su_email fd) = [] then Some (js ''Email is required'')
         else if \<not> emailRegex_test (su_email fd) then Some (js ''Please enter a valid email'')
         else None),
      se_password =
        (if su_password fd = [] then Some (js ''Password is required'')
         else if length (su_password fd) < 6 then Some (js ''Password must be at least 6 characters'')
         else None),
      se_confirmPassword =
        (if su_confirmPassword fd = [] then Some (js ''Please confirm your password'')
         else if su_password fd \<noteq> su_confirmPassword fd then Some (js ''Passwords do not match'')
         else None)\<rparr>"

definition signup_no_errors :: "signup_errors \<Rightarrow> bool" where
  "signup_no_errors e \<longleftrightarrow>
     se_name e = None \<and> se_email e = None \<and> se_password e = None \<and> se_confirmPassword e = None"

text \<open>\<open>handleSubmit\<close> up to the \<open>await signup(...)\<close>.\<close>

definition signup_handleSubmit ::
  "(jsstring \<Rightarrow> jsstring) \<Rightarrow> signup_state \<Rightarrow> signup_state \<times> signup_request option" where
  "signup_handleSubmit unicode_lower st =
     (let errors = signup_validateForm (su_formData st);
          st1 = st\<lparr>su_formErrors := errors\<rparr>
      in if \<not> signup_no_errors errors then (st1, None)
         else (st1\<lparr>su_loading := True, su_error := [], su_success := []\<rparr>,
               Some \<lparr>sr_name = trim (su_name (su_formData st)),
                     sr_email = toLowerCase unicode_lower (trim (su_email (su_formData st))),
                     sr_password = su_password (su_formData st)\<rparr>))"

section \<open>Sentiment pipeline and aggregation (backend)\<close>

text \<open>
  The backend (\<open>backend/sentiment_model.py\<close>, \<open>backend/app.py\<close>) is not among the
  source files; only its callers in the frontend are. The definitions of this section
  follow sections 3 and 4 of the specification. Texts are byte strings here; a letter or
  digit is an ASCII one.
\<close>

text \<open>Modelled from the spec: the \<open>SentimentLabel\<close> enum of section 3.\<close>

datatype SentimentLabel = Positive | Negative | Neutral

text \<open>Modelled from the spec: the fixed class precedence order of section 4.2.\<close>

definition class_order :: "SentimentLabel list" where
  "class_order = [Positive, Negative, Neutral]"

subsection \<open>Vectorizer\<close>

text \<open>
  Modelled from the spec: normalisation to lowercase (section 4.1), absent from the sources.
  An uppercase ASCII letter becomes the letter 32 places later (bit 5 set).
\<close>

definition lower_char :: "char \<Rightarrow> char" where
  "lower_char c =
     (let n = (of_char c :: nat)
      in if 65 \<le> n \<and> n \<le> 90
         then (case c of Char b0 b1 b2 b3 b4 b5 b6 b7 \<Rightarrow> Char b0 b1 b2 b3 b4 True b6 b7)
         else c)"

text \<open>Modelled from the spec: the alphanumeric characters that make up a token (glossary).\<close>

definition is_alnum :: "char \<Rightarrow> bool" where
  "is_alnum c =
     (let n = (of_char c :: nat)
      in (48 \<le> n \<and> n \<le> 57) \<or> (65 \<le> n \<and> n \<le> 90) \<or> (97 \<le> n \<and> n \<le> 122))"

text \<open>Modelled from the spec: splitting on non-alphanumeric characters (section 4.1).\<close>

fun split_on :: "(char \<Rightarrow> bool) \<Rightarrow> string \<Rightarrow> string list" where
  "split_on sep [] = [[]]"
| "split_on sep (c # cs) =
     (if sep c then [] # split_on sep cs
      else (case split_on sep cs of [] \<Rightarrow> [[c]] | t # ts \<Rightarrow> (c # t) # ts))"

text \<open>
  Modelled from the spec: the normalisation and tokenisation shared by \<open>fit\<close> and
  \<open>transform\<close> (section 4.1): lowercase, split on non-alphanumeric characters, discard
  empty tokens.
\<close>

definition tokenize :: "string \<Rightarrow> string list" where
  "tokenize text = filter (\<lambda>t. t \<noteq> []) (split_on (\<lambda>c. \<not> is_alnum c) (map lower_char text))"

text \<open>
  Modelled from the spec: \<open>Vocabulary\<close> and \<open>FeatureVector\<close> of section 3. The
  vocabulary is the list of its tokens, a token's index being its position; a feature
  vector is the list of its counts.
\<close>

type_synonym Vocabulary = "string list"
type_synonym FeatureVector = "nat list"

text \<open>
  Modelled from the spec: one step of \<open>Vectorizer.fit\<close> (section 4.1). A token not seen
  before gets the next index; a token seen before keeps its index.
\<close>

definition add_token :: "Vocabulary \<Rightarrow> string \<Rightarrow> Vocabulary" where
  "add_token vocabulary t = (if t \<in> set vocabulary then vocabulary else vocabulary @ [t])"

text \<open>
  Modelled from the spec: \<open>Vectorizer.fit\<close> (section 4.1): the distinct tokens of the
  whole corpus in discovery order.
\<close>

definition vectorizer_fit :: "string list \<Rightarrow> Vocabulary" where
  "vectorizer_fit texts = foldl add_token [] (concat (map tokenize texts))"

text \<open>
  Modelled from the spec: \<open>Vectorizer.transform\<close> (section 4.1). Entry \<open>i\<close> counts the
  occurrences in the text of the token at index \<open>i\<close>; unknown tokens are ignored.
\<close>

definition transform :: "string \<Rightarrow> Vocabulary \<Rightarrow> FeatureVector" where
  "transform text vocabulary = map (\<lambda>t. count_list (tokenize text) t) vocabulary"

subsection \<open>Classifier\<close>

text \<open>
  Modelled from the spec: the configuration errors of sections 4.2 and 7 (an empty or
  label-incomplete reference corpus).
\<close>

datatype config_error = EmptyCorpus | MissingClass SentimentLabel

text \<open>
  Modelled from the spec: \<open>ClassPriors\<close> and \<open>ClassLikelihoods\<close> of section 3, the
  trained parameters: the log prior of each class and the log likelihood of each token
  given each class, with the number of tokens they were fit for.
\<close>

record model =
  class_log_prior :: "SentimentLabel \<Rightarrow> real"
  feature_log_prob :: "SentimentLabel \<Rightarrow> real list"
  n_features :: nat

text \<open>Modelled from the spec: the vectors of the training examples of one class (section 4.2).\<close>

definition class_examples :: "(FeatureVector \<times> SentimentLabel) list \<Rightarrow> SentimentLabel \<Rightarrow> FeatureVector list" where
  "class_examples examples c = map fst (filter (\<lambda>(v, l). l = c) examples)"

text \<open>Modelled from the spec: \<open>P(c) = count(c) / total_examples\<close> (section 4.2).\<close>

definition prior :: "(FeatureVector \<times> SentimentLabel) list \<Rightarrow> SentimentLabel \<Rightarrow> real" where
  "prior examples c = real (length (class_examples examples c)) / real (length examples)"

text \<open>
  Modelled from the spec: the sum of the count of token \<open>i\<close> across all examples of class
  \<open>c\<close> (section 4.2).
\<close>

definition token_count :: "(FeatureVector \<times> SentimentLabel) list \<Rightarrow> SentimentLabel \<Rightarrow> nat \<Rightarrow> nat" where
  "token_count examples c i = sum_list (map (\<lambda>v. v ! i) (class_examples examples c))"

text \<open>Modelled from the spec: the total token count across class \<open>c\<close> (section 4.2).\<close>

definition class_token_total :: "(FeatureVector \<times> SentimentLabel) list \<Rightarrow> SentimentLabel \<Rightarrow> nat" where
  "class_token_total examples c = sum_list (map sum_list (class_examples examples c))"

text \<open>
  Modelled from the spec: the add-one smoothed likelihood (section 4.2),
  \<open>P(t|c) = (sum of t's count across all examples of class c + 1) /
  (total token count across class c + |vocabulary|)\<close>.
\<close>

definition likelihood :: "nat \<Rightarrow> (FeatureVector \<times> SentimentLabel) list \<Rightarrow> SentimentLabel \<Rightarrow> nat \<Rightarrow> real" where
  "likelihood n examples c i =
     (real (token_count examples c i) + 1) / (real (class_token_total examples c) + real n)"

text \<open>
  Modelled from the spec: \<open>Classifier.fit\<close> (section 4.2). No example at all, or no example
  of some class, is a configuration error; otherwise the parameters are stored in log space.
  The number of features is the length of the vectors.
\<close>

definition classifier_fit :: "(FeatureVector \<times> SentimentLabel) list \<Rightarrow> config_error + model" where
  "classifier_fit examples =
     (case examples of
        [] \<Rightarrow> Inl EmptyCorpus
      | (v0, _) # _ \<Rightarrow>
          (case filter (\<lambda>c. class_examples examples c = []) class_order of
             c # _ \<Rightarrow> Inl (MissingClass c)
           | [] \<Rightarrow>
               Inr \<lparr>class_log_prior = (\<lambda>c. ln (prior examples c)),
                    feature_log_prob =
                      (\<lambda>c. map (\<lambda>i. ln (likelihood (length v0) examples c i)) [0..<length v0]),
                    n_features = length v0\<rparr>))"

text \<open>
  Modelled from the spec: \<open>score(c) = log P(c) + \<Sigma>_t (count of t in vector \<times> log P(t|c))\<close>,
  summed only over tokens with nonzero count (section 4.2).
\<close>

definition score :: "model \<Rightarrow> FeatureVector \<Rightarrow> SentimentLabel \<Rightarrow> real" where
  "score m v c =
     class_log_prior m c +
     sum_list (map (\<lambda>(x, lp). real x * lp)
       (filter (\<lambda>(x, lp). x \<noteq> 0) (zip v (feature_log_prob m c))))"

text \<open>
  Modelled from the spec: the class with the maximum score, the first in the precedence
  order among tied maxima (section 4.2): a later class replaces the best so far only when
  its score is strictly greater.
\<close>

definition argmax_first :: "(SentimentLabel \<Rightarrow> real) \<Rightarrow> SentimentLabel" where
  "argmax_first f = foldl (\<lambda>best c. if f best < f c then c else best) (hd class_order) (tl class_order)"

text \<open>
  Modelled from the spec: \<open>Classifier.predict\<close> (section 4.2). A vector whose length is not
  the model's number of features does not belong to the model's vocabulary; the
  specification leaves that case undefined (section 3), here it is \<open>None\<close>.
\<close>

definition predict :: "model \<Rightarrow> FeatureVector \<Rightarrow> SentimentLabel option" where
  "predict m v = (if length v \<noteq> n_features m then None else Some (argmax_first (score m v)))"

text \<open>
  Modelled from the spec: the position of a class in the precedence order of section 4.2.
\<close>

definition precedence :: "SentimentLabel \<Rightarrow> nat" where
  "precedence c = length (takeWhile (\<lambda>x. x \<noteq> c) class_order)"

subsection \<open>Sentiment service\<close>

text \<open>
  Modelled from the spec: the state the sentiment service owns (section 3): the
  vocabulary and the trained classifier.
\<close>

record service =
  vocabulary :: Vocabulary
  classifier :: model

text \<open>
  Modelled from the spec: the (FeatureVector, label) pairs of the initialisation
  (section 4.3): every corpus text transformed against the vocabulary fit on the corpus.
\<close>

definition training_examples :: "(string \<times> SentimentLabel) list \<Rightarrow> (FeatureVector \<times> SentimentLabel) list" where
  "training_examples corpus =
     map (\<lambda>(text, label). (transform text (vectorizer_fit (map fst corpus)), label)) corpus"

text \<open>
  Modelled from the spec: the one-time initialisation of section 4.3: fit the vectorizer
  on the corpus texts, transform every text, fit the classifier; any failure is fatal.
\<close>

definition service_init :: "(string \<times> SentimentLabel) list \<Rightarrow> config_error + service" where
  "service_init corpus =
     (case classifier_fit (training_examples corpus) of
        Inl e \<Rightarrow> Inl e
      | Inr m \<Rightarrow> Inr \<lparr>vocabulary = vectorizer_fit (map fst corpus), classifier = m\<rparr>)"

text \<open>Modelled from the spec: \<open>classify\<close> of section 4.3.\<close>

definition classify :: "service \<Rightarrow> string \<Rightarrow> SentimentLabel option" where
  "classify svc text = predict (classifier svc) (transform text (vocabulary svc))"

subsection \<open>Aggregation engine\<close>

text \<open>
  Modelled from the spec: \<open>summarize\<close> of section 4.4 counts the occurrences of each
  label; \<open>Total\<close> is the length of the input.
\<close>

definition summarize :: "SentimentLabel list \<Rightarrow> summary" where
  "summarize labels =
     \<lparr>s_Positive = count_list labels Positive,
      s_Negative = count_list labels Negative,
      s_Neutral = count_list labels Neutral,
      s_Total = length labels\<rparr>"

section \<open>Example inputs\<close>

text \<open>The three sample training examples of the README, one per class.\<close>

definition corpus_example :: "(string \<times> SentimentLabel) list" where
  "corpus_example =
     [(''I love this product! It's amazing.'', Positive),
      (''Terrible experience! Complete waste of money.'', Negative),
      (''The product is okay, nothing special.'', Neutral)]"

text \<open>A corpus with unequal class frequencies: one Positive, two Negative, two Neutral.\<close>

definition corpus_skewed :: "(string \<times> SentimentLabel) list" where
  "corpus_skewed =
     [(''good'', Positive), (''bad'', Negative), (''awful'', Negative),
      (''ok'', Neutral), (''fine'', Neutral)]"

definition service_skewed :: service where
  "service_skewed = projr (service_init corpus_skewed)"

text \<open>A summary of 80 feedbacks, and one of more than \<open>10^15\<close>.\<close>

definition summary_example :: summary where
  "summary_example = \<lparr>s_Positive = 23, s_Negative = 57, s_Neutral = 0, s_Total = 80\<rparr>"

definition summary_large :: summary where
  "summary_large =
     \<lparr>s_Positive = 943500000000001, s_Negative = 56500000000000, s_Neutral = 0,
      s_Total = 1000000000000001\<rparr>"

definition service_example :: service where
  "service_example = projr (service_init corpus_example)"

text \<open>A logged-in user, and the message of the TypeError for \<open>user.id\<close> on \<open>null\<close>.\<close>

definition user_example :: user where
  "user_example = \<lparr>u_id = Some 7, u_name = js ''John Doe''\<rparr>"

definition type_error_example :: jsstring where
  "type_error_example = js ''Cannot read properties of null (reading 'id')''"

definition fb_example :: feedback_state where
  "fb_example = fb_handleChange (js '' great '') (fb_handleRatingClick 4 fb_initial)"

definition login_example :: login_state where
  "login_example =
     \<lparr>lg_formData = \<lparr>lg_email = js '' John@Example.COM  '', lg_password = js ''secret1''\<rparr>,
      lg_loading = False, lg_error = [],
      lg_formErrors = \<lparr>le_email = None, le_password = None\<rparr>\<rparr>"

definition signup_example :: signup_state where
  "signup_example =
     \<lparr>su_formData = \<lparr>su_name = js ''John Doe'', su_email = js ''John@Example.COM'',
                     su_password = js ''secret1'', su_confirmPassword = js ''secret1''\<rparr>,
      su_loading = False, su_error = [], su_success = [],
      su_formErrors = \<lparr>se_name = None, se_email = None, se_password = None,
                       se_confirmPassword = None\<rparr>\<rparr>"

section \<open>Properties of the number model\<close>

lemma pow2_powi: "pow2 k = 2 powi k"
  by (simp add: pow2_def power_int_def inverse_eq_divide power_one_over)

lemma pow2_pos: "0 < pow2 k"
  by (simp add: pow2_powi)

lemma pow2_add: "pow2 (a + b) = pow2 a * pow2 b"
  by (simp add: pow2_powi power_int_add)

lemma pow2_mono: "a \<le> b \<Longrightarrow> pow2 a \<le> pow2 b"
  by (simp add: pow2_powi power_int_increasing)

lemma pow2_strict_mono: "a < b \<Longrightarrow> pow2 a < pow2 b"
  by (simp add: pow2_powi power_int_strict_increasing)

lemma pow2_numeral: "pow2 (numeral n) = 2 ^ numeral n" "pow2 1 = 2" "pow2 0 = 1"
  by (simp_all add: pow2_def)

lemma pow2_Suc: "pow2 (k + 1) = 2 * pow2 k"
  by (simp add: pow2_add pow2_numeral)

lemma expo_bounds:
  assumes "0 < x"
  shows "pow2 (expo x) \<le> x \<and> x < pow2 (expo x + 1)"
proof -
  obtain p q where pq: "quotient_of x = (p, q)" by (cases "quotient_of x")
  have q: "0 < q" using quotient_of_denom_pos [OF pq] .
  have x: "x = of_int p / of_int q" using quotient_of_div [OF pq] .
  have p: "0 < p" using assms q x by (simp add: zero_less_divide_iff)
  define bp bq where "bp = bitlen p" and "bq = bitlen q"
  have bp1: "1 \<le> bp" and bq1: "1 \<le> bq"
    using p q bitlen_eq_zero_iff [of p] bitlen_eq_zero_iff [of q] bitlen_nonneg [of p] bitlen_nonneg [of q]
    by (auto simp: bp_def bq_def)
  have "2 ^ nat (bp - 1) \<le> p" "p < 2 ^ nat bp" "2 ^ nat (bq - 1) \<le> q" "q < 2 ^ nat bq"
    using bitlen_bounds [OF p] bitlen_bounds [OF q] by (simp_all add: bp_def bq_def)
  then have "(of_int (2 ^ nat (bp - 1)) :: rat) \<le> of_int p" "(of_int p :: rat) < of_int (2 ^ nat bp)"
    "(of_int (2 ^ nat (bq - 1)) :: rat) \<le> of_int q" "(of_int q :: rat) < of_int (2 ^ nat bq)"
    by (simp_all only: of_int_le_iff of_int_less_iff)
  then have P: "pow2 (bp - 1) \<le> of_int p" "of_int p < pow2 bp"
    and Q: "pow2 (bq - 1) \<le> of_int q" "of_int q < pow2 bq"
    using bp1 bq1 by (simp_all add: pow2_def)
  have lo: "pow2 (bp - bq - 1) \<le> x"
  proof -
    have "pow2 (bp - bq - 1) * of_int q \<le> pow2 (bp - bq - 1) * pow2 bq"
      using Q(2) pow2_pos [of "bp - bq - 1"] by (simp add: less_imp_le)
    also have "\<dots> = pow2 (bp - 1)" by (simp flip: pow2_add)
    also have "\<dots> \<le> of_int p" by (rule P(1))
    finally show ?thesis using q by (simp add: x pos_le_divide_eq)
  qed
  have hi: "x < pow2 (bp - bq + 1)"
  proof -
    have "of_int p < pow2 bp" by (rule P(2))
    also have "\<dots> = pow2 (bp - bq + 1) * pow2 (bq - 1)" by (simp flip: pow2_add)
    also have "\<dots> \<le> pow2 (bp - bq + 1) * of_int q"
      using Q(1) pow2_pos [of "bp - bq + 1"] by simp
    finally show ?thesis using q by (simp add: x pos_divide_less_eq)
  qed
  have e: "expo x = (if pow2 (bp - bq) \<le> x then bp - bq else bp - bq - 1)"
    by (simp add: expo_def pq bp_def bq_def Let_def)
  show ?thesis
  proof (cases "pow2 (bp - bq) \<le> x")
    case True
    then show ?thesis using hi e by simp
  next
    case False
    then show ?thesis using lo e by simp
  qed
qed

lemma expo_unique:
  assumes "0 < x" "pow2 e \<le> x" "x < pow2 (e + 1)"
  shows "expo x = e"
proof (rule ccontr)
  assume ne: "expo x \<noteq> e"
  from expo_bounds [OF assms(1)] have b: "pow2 (expo x) \<le> x" "x < pow2 (expo x + 1)" by simp_all
  show False
  proof (cases "expo x < e")
    case True
    then have "pow2 (expo x + 1) \<le> pow2 e" by (intro pow2_mono) simp
    with b(2) assms(2) show False by simp
  next
    case False
    with ne have "e + 1 \<le> expo x" by simp
    then have "pow2 (e + 1) \<le> pow2 (expo x)" by (rule pow2_mono)
    with b(1) assms(3) show False by simp
  qed
qed

lemma round_half_even_error: "\<bar>of_int (round_half_even y) - y\<bar> \<le> 1 / 2"
proof -
  have "of_int \<lfloor>y\<rfloor> \<le> y" "y < of_int \<lfloor>y\<rfloor> + 1" by linarith+
  then show ?thesis
    by (auto simp: round_half_even_def Let_def abs_le_iff)
qed

lemma round_half_even_eqI:
  assumes "of_int n - 1 / 2 < y" "y < of_int n + 1 / 2"
  shows "round_half_even y = n"
proof -
  have e: "\<bar>of_int (round_half_even y) - y\<bar> \<le> 1 / 2" by (rule round_half_even_error)
  have "\<bar>(of_int (round_half_even y) :: rat) - of_int n\<bar> < 1"
    using e assms by linarith
  then have "\<bar>of_int (round_half_even y - n) :: rat\<bar> < 1" by simp
  then have "\<bar>round_half_even y - n\<bar> < 1"
    by (metis of_int_abs of_int_less_1_iff)
  then show ?thesis by simp
qed

lemma round_half_even_of_int: "round_half_even (of_int k) = k"
  by (rule round_half_even_eqI) simp_all

lemma fl_error:
  assumes "0 < x"
  shows "\<bar>fl x - x\<bar> \<le> x / 2 ^ 53"
proof -
  define e where "e = expo x"
  define ulp where "ulp = pow2 (e - 52)"
  have up: "0 < ulp" by (simp add: ulp_def pow2_pos)
  have fl: "fl x = of_int (round_half_even (x / ulp)) * ulp"
    using assms by (simp add: fl_def ulp_def e_def Let_def)
  have "fl x - x = (of_int (round_half_even (x / ulp)) - x / ulp) * ulp"
    using up by (simp add: fl left_diff_distrib)
  then have "\<bar>fl x - x\<bar> = \<bar>of_int (round_half_even (x / ulp)) - x / ulp\<bar> * ulp"
    using up by (simp add: abs_mult)
  also have "\<dots> \<le> 1 / 2 * ulp"
    using round_half_even_error [of "x / ulp"] up by (intro mult_right_mono) simp_all
  also have "\<dots> = pow2 e / 2 ^ 53"
  proof -
    have "pow2 e = pow2 (e - 52) * pow2 52" by (simp flip: pow2_add)
    then show ?thesis by (simp add: ulp_def pow2_numeral)
  qed
  also have "\<dots> \<le> x / 2 ^ 53"
    using expo_bounds [OF assms] by (simp add: e_def divide_right_mono)
  finally show ?thesis .
qed

lemma fl_exact:
  assumes m: "0 < m" "m < 2 ^ 53" and x: "x = of_int m * pow2 k"
  shows "fl x = x"
proof -
  have xp: "0 < x" using m x pow2_pos [of k] by simp
  define e where "e = expo x"
  have "pow2 e \<le> x" using expo_bounds [OF xp] by (simp add: e_def)
  also have "x < 2 ^ 53 * pow2 k"
  proof -
    have "(of_int m :: rat) < of_int (2 ^ 53)" using m(2) by (simp only: of_int_less_iff)
    then show ?thesis using pow2_pos [of k] by (simp add: x)
  qed
  also have "\<dots> = pow2 (k + 53)" by (simp add: pow2_add pow2_numeral)
  finally have "e < k + 53"
    using pow2_mono [of "k + 53" e] by (cases "e < k + 53") simp_all
  then have d: "0 \<le> k - e + 52" by simp
  have "x / pow2 (e - 52) = of_int m * (pow2 k / pow2 (e - 52))" by (simp add: x)
  also have "pow2 k / pow2 (e - 52) = pow2 (k - e + 52)"
  proof -
    have "pow2 k = pow2 (k - e + 52) * pow2 (e - 52)" by (simp flip: pow2_add)
    then show ?thesis using pow2_pos [of "e - 52"] by simp
  qed
  also have "pow2 (k - e + 52) = of_int (2 ^ nat (k - e + 52))" using d by (simp add: pow2_def)
  finally have "x / pow2 (e - 52) = of_int (m * 2 ^ nat (k - e + 52))" by simp
  then have "round_half_even (x / pow2 (e - 52)) = m * 2 ^ nat (k - e + 52)"
    by (simp only: round_half_even_of_int)
  then have "fl x = of_int (m * 2 ^ nat (k - e + 52)) * pow2 (e - 52)"
    using xp by (simp add: fl_def e_def Let_def)
  also have "\<dots> = (x / pow2 (e - 52)) * pow2 (e - 52)"
    using \<open>x / pow2 (e - 52) = of_int (m * 2 ^ nat (k - e + 52))\<close> by simp
  also have "\<dots> = x" using pow2_pos [of "e - 52"] by simp
  finally show ?thesis .
qed

lemma digits_small: "n < 10 \<Longrightarrow> digits n = [digit n]"
  by (subst digits.simps) simp

lemma digits_large: "10 \<le> n \<Longrightarrow> digits n = digits (n div 10) @ [digit (n mod 10)]"
  by (subst digits.simps) simp

lemma length_digits_pos: "0 < length (digits n)"
  by (subst digits.simps) simp

lemma fixed_digits_1: "fixed_digits 1 n = one_decimal n"
proof (cases "n < 10")
  case True
  then show ?thesis
    by (simp add: fixed_digits_def digits_small one_decimal_def Let_def digit_def)
next
  case False
  then have d: "digits n = digits (n div 10) @ [digit (n mod 10)]" by (simp add: digits_large)
  have "0 < length (digits (n div 10))" by (rule length_digits_pos)
  then show ?thesis
    by (simp add: fixed_digits_def d one_decimal_def Let_def)
qed

lemma toFixed_1:
  assumes "0 \<le> x" "x < 10 ^ 21"
  shows "toFixed 1 x = Some (one_decimal (nat \<lfloor>x * 10 + 1 / 2\<rfloor>))"
  using assms fixed_digits_1 [of "nat \<lfloor>x * 10 + 1 / 2\<rfloor>"] by (simp add: toFixed_def)

lemma to_double_pos:
  assumes "pow2 (- 1022) \<le> x" "x \<le> pow2 1000"
  shows "to_double x = Some (fl x)" and "\<bar>fl x - x\<bar> \<le> x / 2 ^ 53" and "0 < fl x" and "fl x \<le> 2 * x"
proof -
  have xp: "0 < x" using assms(1) pow2_pos [of "- 1022"] by simp
  show e: "\<bar>fl x - x\<bar> \<le> x / 2 ^ 53" by (rule fl_error [OF xp])
  have "x / 2 ^ 53 < x" using xp by (simp add: field_simps)
  with e show p: "0 < fl x" by linarith
  have "x / 2 ^ 53 \<le> x" using xp by (simp add: field_simps)
  with e show u: "fl x \<le> 2 * x" by linarith
  have "2 * x \<le> 2 * pow2 1000" using assms(2) by simp
  also have "\<dots> = pow2 1001" using pow2_Suc [of 1000] by simp
  also have "\<dots> < pow2 1024" by (rule pow2_strict_mono) simp
  finally have "fl x < pow2 1024" using u by simp
  then show "to_double x = Some (fl x)"
    using xp p assms(1) by (simp add: to_double_def)
qed

lemma number_of_nat_exact:
  assumes "n < 2 ^ 53"
  shows "number_of_nat n = Some (of_nat n)"
proof (cases "n = 0")
  case True
  then show ?thesis by (simp add: number_of_nat_def to_double_def)
next
  case False
  then have n: "0 < int n" "int n < 2 ^ 53" using assms by simp_all
  have x: "(of_nat n :: rat) = of_int (int n) * pow2 0" by (simp add: pow2_numeral)
  have f: "fl (of_nat n) = of_nat n" by (rule fl_exact [OF n x])
  have "pow2 (- 1022) \<le> pow2 0" by (rule pow2_mono) simp
  also have "\<dots> \<le> of_nat n" using False by (simp add: pow2_numeral)
  finally have lo: "pow2 (- 1022) \<le> (of_nat n :: rat)" .
  have "(of_nat n :: rat) < of_nat (2 ^ 53)" using assms by (simp only: of_nat_less_iff)
  also have "\<dots> = pow2 53" by (simp add: pow2_numeral)
  also have "\<dots> \<le> pow2 1000" by (rule pow2_mono) simp
  finally have hi: "(of_nat n :: rat) \<le> pow2 1000" by simp
  show ?thesis using to_double_pos(1) [OF lo hi] f by (simp add: number_of_nat_def)
qed

lemma nearest_tenth_core:
  fixes p :: rat and c t :: nat and N :: int
  assumes t: "0 < t" and c: "c \<le> 2 * 10 ^ 12"
    and D: "\<bar>10 * p - 1000 * of_nat c / of_nat t\<bar> \<le> (1000 * of_nat c / of_nat t) * ((2 + 1 / 2 ^ 53) / 2 ^ 53)"
    and N: "of_int N \<le> 10 * p + 1 / 2" "10 * p + 1 / 2 < of_int N + 1"
  shows "\<bar>of_int N - 1000 * of_nat c / of_nat t\<bar> \<le> (1 / 2 :: rat)"
proof -
  define Y :: rat where "Y = 1000 * of_nat c / of_nat t"
  define K :: rat where "K = (2 + 1 / 2 ^ 53) / 2 ^ 53"
  define T :: rat where "T = of_nat t"
  define C :: rat where "C = of_nat c"
  have tp: "0 < T" using t by (simp add: T_def)
  have YT: "Y * T = 1000 * C" using tp by (simp add: Y_def T_def C_def)
  have cK: "2000 * C * K < 1"
  proof -
    have "C \<le> of_nat (2 * 10 ^ 12)" unfolding C_def using c by (simp only: of_nat_le_iff)
    then have "2000 * C * K \<le> 2000 * (2 * 10 ^ 12) * K"
      by (simp add: K_def)
    also have "\<dots> < 1" by (simp add: K_def)
    finally show ?thesis .
  qed
  have small: "2 * (Y * K * T) < 1"
  proof -
    have "2 * (Y * K * T) = 2 * (Y * T) * K" by simp
    also have "\<dots> = 2000 * C * K" by (simp add: YT)
    finally have "2 * (Y * K * T) = 2000 * C * K" .
    then show ?thesis using cK by (simp only:)
  qed
  have D': "\<bar>10 * p - Y\<bar> \<le> Y * K" using D by (simp add: Y_def K_def)
  have castN: "of_int N * T = of_int (N * int t)" "T = of_int (int t)" "C = of_int (int c)"
    by (simp_all add: T_def C_def)
  have up: "of_int N - Y \<le> 1 / 2"
  proof (rule ccontr)
    assume "\<not> of_int N - Y \<le> 1 / 2"
    then have "Y < of_int N - 1 / 2" by simp
    then have "Y * T < (of_int N - 1 / 2) * T"
      using tp by (rule mult_strict_right_mono)
    also have "\<dots> = of_int N * T - T / 2" by (simp add: left_diff_distrib)
    finally have "2000 * C < 2 * (of_int N * T) - T" using YT by simp
    then have "(of_int (2000 * int c) :: rat) < of_int (2 * (N * int t) - int t)"
      by (simp add: castN)
    then have "2000 * int c < 2 * (N * int t) - int t" by (simp only: of_int_less_iff)
    then have "2000 * int c + 1 \<le> 2 * (N * int t) - int t" by simp
    then have "(of_int (2000 * int c + 1) :: rat) \<le> of_int (2 * (N * int t) - int t)"
      by (simp only: of_int_le_iff)
    then have "2000 * C + 1 \<le> 2 * (of_int N * T) - T" by (simp add: castN)
    then have i: "2 * (Y * T) + 1 \<le> 2 * (of_int N * T) - T" using YT by simp
    have "(10 * p - Y) * T \<le> (Y * K) * T"
      using D' tp by (intro mult_right_mono) (simp_all add: abs_le_iff)
    moreover have "(of_int N - 1 / 2) * T \<le> 10 * p * T"
      using N(1) tp by (intro mult_right_mono) simp_all
    ultimately have "2 * (of_int N * T) - T - 2 * (Y * T) \<le> 2 * (Y * K * T)"
      by (simp add: left_diff_distrib)
    with i small show False by linarith
  qed
  have lo: "Y - of_int N \<le> 1 / 2"
  proof (rule ccontr)
    assume "\<not> Y - of_int N \<le> 1 / 2"
    then have "of_int N + 1 / 2 < Y" by simp
    then have "(of_int N + 1 / 2) * T < Y * T"
      using tp by (rule mult_strict_right_mono)
    moreover have "(of_int N + 1 / 2) * T = of_int N * T + T / 2" by (simp add: distrib_right)
    ultimately have "2 * (of_int N * T) + T < 2000 * C" using YT by simp
    then have "(of_int (2 * (N * int t) + int t) :: rat) < of_int (2000 * int c)"
      by (simp add: castN)
    then have "2 * (N * int t) + int t < 2000 * int c" by (simp only: of_int_less_iff)
    then have "2 * (N * int t) + int t + 1 \<le> 2000 * int c" by simp
    then have "(of_int (2 * (N * int t) + int t + 1) :: rat) \<le> of_int (2000 * int c)"
      by (simp only: of_int_le_iff)
    then have "2 * (of_int N * T) + T + 1 \<le> 2000 * C" by (simp add: castN)
    then have i: "2 * (of_int N * T) + T + 1 \<le> 2 * (Y * T)" using YT by simp
    have "(Y - 10 * p) * T \<le> (Y * K) * T"
      using D' tp by (intro mult_right_mono) (simp_all add: abs_le_iff)
    moreover have "10 * p * T \<le> (of_int N + 1 / 2) * T"
      using N(2) tp by (intro mult_right_mono) simp_all
    ultimately have "2 * (Y * T) - (2 * (of_int N * T) + T) \<le> 2 * (Y * K * T)"
      by (simp add: left_diff_distrib distrib_right)
    with i small show False by linarith
  qed
  from up lo have "\<bar>of_int N - Y\<bar> \<le> 1 / 2" by linarith
  then show ?thesis by (simp only: Y_def)
qed


lemma percentage_zero:
  assumes "0 < tot" "tot < 2 ^ 53"
  shows "percentage 0 tot = Some (one_decimal 0)"
proof -
  have t: "number_of_nat tot = Some (of_nat tot)" by (rule number_of_nat_exact [OF assms(2)])
  have z: "number_of_nat 0 = Some 0" by (simp add: number_of_nat_def to_double_def)
  have d: "number_div 0 (of_nat tot) = Some 0" using assms(1) by (simp add: number_div_def to_double_def)
  have m: "number_mul 0 100 = Some 0" by (simp add: number_mul_def to_double_def)
  have f: "toFixed 1 0 = Some (one_decimal 0)" using toFixed_1 [of 0] by simp
  show ?thesis by (simp add: percentage_def t z d m f del: One_nat_def)
qed

lemma percentage_rounds:
  assumes tot: "0 < tot" "tot < 2 ^ 53" and cnt: "cnt \<le> 2 * 10 ^ 12"
  shows "\<exists>n. percentage cnt tot = Some (one_decimal n) \<and>
             \<bar>of_nat n / 10 - 100 * of_nat cnt / of_nat tot\<bar> \<le> (1 / 20 :: rat)"
proof (cases "cnt = 0")
  case True
  then show ?thesis using percentage_zero [OF tot] by (intro exI [of _ 0]) simp
next
  case False
  define c :: rat where "c = of_nat cnt"
  define t :: rat where "t = of_nat tot"
  define x where "x = c / t"
  define q where "q = fl x"
  define p where "p = fl (q * 100)"
  define N where "N = \<lfloor>p * 10 + 1 / 2\<rfloor>"
  have cnt53: "cnt < 2 ^ 53" using cnt by simp
  have c1: "1 \<le> c" using False by (simp add: c_def)
  have c2: "c \<le> 2 * 10 ^ 12"
  proof -
    have "c \<le> of_nat (2 * 10 ^ 12)" unfolding c_def using cnt by (simp only: of_nat_le_iff)
    then show ?thesis by simp
  qed
  have t1: "1 \<le> t" using tot(1) by (simp add: t_def)
  have t2: "t < 2 ^ 53"
  proof -
    have "t < of_nat (2 ^ 53)" unfolding t_def using tot(2) by (simp only: of_nat_less_iff)
    then show ?thesis by simp
  qed
  have xp: "0 < x" using c1 t1 by (simp add: x_def)
  have xlo: "1 / 2 ^ 53 \<le> x"
  proof -
    have "1 / 2 ^ 53 \<le> 1 / t" using t1 t2 by (simp add: frac_le)
    also have "\<dots> \<le> c / t" using c1 t1 by (simp add: divide_right_mono)
    finally show ?thesis by (simp add: x_def)
  qed
  have xhi: "x \<le> 2 * 10 ^ 12"
  proof -
    have "c / t \<le> c / 1" using c1 t1 by (intro divide_left_mono) simp_all
    then show ?thesis using c2 by (simp add: x_def)
  qed
  have p53: "pow2 (- 53) = 1 / 2 ^ 53" by (simp add: pow2_def)
  have lo1022: "pow2 (- 1022) \<le> 1 / 2 ^ 54"
  proof -
    have "pow2 (- 1022) \<le> pow2 (- 54)" by (rule pow2_mono) simp
    then show ?thesis by (simp add: pow2_def)
  qed
  have hi1000: "(2 ^ 53 :: rat) \<le> pow2 1000"
  proof -
    have "pow2 53 \<le> pow2 1000" by (rule pow2_mono) simp
    then show ?thesis by (simp add: pow2_numeral)
  qed
  have x_range: "pow2 (- 1022) \<le> x" "x \<le> pow2 1000"
    using lo1022 xlo xhi hi1000 by simp_all
  note dq = to_double_pos [OF x_range, folded q_def]
  have qlo: "x / 2 \<le> q"
  proof -
    have "x / 2 ^ 53 \<le> x / 2" using xp by (simp add: field_simps)
    with dq(2) show ?thesis by linarith
  qed
  have q_range: "pow2 (- 1022) \<le> q * 100" "q * 100 \<le> pow2 1000"
  proof -
    have "1 / 2 ^ 54 \<le> x / 2" using xlo by simp
    then show "pow2 (- 1022) \<le> q * 100" using lo1022 qlo dq(3) by linarith
    have "q * 100 \<le> 200 * x" using dq(4) by simp
    also have "\<dots> \<le> 2 ^ 53" using xhi by simp
    finally show "q * 100 \<le> pow2 1000" using hi1000 by simp
  qed
  note dp = to_double_pos [OF q_range, folded p_def]
  have pnn: "0 \<le> p" using dp(3) by simp
  have phi: "p < 10 ^ 21"
  proof -
    have "p \<le> 2 * (q * 100)" by (rule dp(4))
    also have "\<dots> \<le> 400 * x" using dq(4) by simp
    also have "\<dots> < 10 ^ 21" using xhi by simp
    finally show ?thesis .
  qed
  have fixed: "toFixed 1 p = Some (one_decimal (nat N))"
    using toFixed_1 [OF pnn phi] by (simp add: N_def)
  have ct: "number_of_nat cnt = Some c" "number_of_nat tot = Some t"
    using number_of_nat_exact [OF cnt53] number_of_nat_exact [OF tot(2)] by (simp_all add: c_def t_def)
  have tne: "t \<noteq> 0" using t1 by simp
  have div: "number_div c t = Some q" using dq(1) tne by (simp add: number_div_def x_def)
  have mul: "number_mul q 100 = Some p" using dp(1) by (simp add: number_mul_def)
  have pct: "percentage cnt tot = Some (one_decimal (nat N))"
    by (simp add: percentage_def ct div mul fixed del: One_nat_def)
  have Nnn: "0 \<le> N" using pnn by (simp add: N_def)
  have NN: "of_int N \<le> 10 * p + 1 / 2" "10 * p + 1 / 2 < of_int N + 1"
    unfolding N_def by linarith+
  have D: "\<bar>10 * p - 1000 * of_nat cnt / of_nat tot\<bar>
      \<le> (1000 * of_nat cnt / of_nat tot) * ((2 + 1 / 2 ^ 53) / 2 ^ 53)"
  proof -
    have e1: "\<bar>p - q * 100\<bar> \<le> q * 100 / 2 ^ 53" by (rule dp(2))
    have e2: "\<bar>q - x\<bar> \<le> x / 2 ^ 53" by (rule dq(2))
    have "q \<le> x + x / 2 ^ 53" using e2 by linarith
    then have "q * 100 / 2 ^ 53 \<le> (x + x / 2 ^ 53) * 100 / 2 ^ 53"
      by (simp add: divide_right_mono)
    with e1 e2 have "\<bar>p - 100 * x\<bar> \<le> (x + x / 2 ^ 53) * 100 / 2 ^ 53 + 100 * (x / 2 ^ 53)"
      by linarith
    also have "\<dots> = 100 * x * ((2 + 1 / 2 ^ 53) / 2 ^ 53)" by (simp add: algebra_simps)
    finally have "10 * \<bar>p - 100 * x\<bar> \<le> 10 * (100 * x * ((2 + 1 / 2 ^ 53) / 2 ^ 53))"
      by simp
    moreover have "10 * \<bar>p - 100 * x\<bar> = \<bar>10 * p - 1000 * x\<bar>" by (simp add: abs_if)
    ultimately have "\<bar>10 * p - 1000 * x\<bar> \<le> 1000 * x * ((2 + 1 / 2 ^ 53) / 2 ^ 53)" by simp
    then show ?thesis by (simp add: x_def c_def t_def)
  qed
  have "\<bar>of_int N - 1000 * of_nat cnt / of_nat tot\<bar> \<le> (1 / 2 :: rat)"
    by (rule nearest_tenth_core [OF tot(1) cnt D NN])
  moreover have "(of_nat (nat N) :: rat) = of_int N" using Nnn by simp
  ultimately have "\<bar>of_nat (nat N) / 10 - 100 * of_nat cnt / of_nat tot\<bar> \<le> (1 / 20 :: rat)"
    by (simp add: abs_le_iff field_simps)
  with pct show ?thesis by blast
qed


lemma to_double_mid:
  assumes "1 / 2 ^ 54 \<le> x" "x \<le> 2 ^ 54"
  shows "to_double x = Some (fl x)"
proof -
  have "pow2 (- 1022) \<le> pow2 (- 54)" by (rule pow2_mono) simp
  then have lo: "pow2 (- 1022) \<le> x" using assms(1) by (simp add: pow2_def)
  have "pow2 54 \<le> pow2 1000" by (rule pow2_mono) simp
  then have hi: "x \<le> pow2 1000" using assms(2) by (simp add: pow2_numeral)
  show ?thesis by (rule to_double_pos(1) [OF lo hi])
qed

lemma fl_eval:
  assumes "0 < x" "pow2 e \<le> x" "x < pow2 (e + 1)"
    and "of_int M - 1 / 2 < x / pow2 (e - 52)" "x / pow2 (e - 52) < of_int M + 1 / 2"
  shows "fl x = of_int M * pow2 (e - 52)"
proof -
  have e: "expo x = e" by (rule expo_unique [OF assms(1-3)])
  have "round_half_even (x / pow2 (e - 52)) = M" by (rule round_half_even_eqI [OF assms(4,5)])
  then show ?thesis using assms(1) by (simp add: fl_def e Let_def)
qed

lemma to_double_exact:
  assumes "0 < m" "m < 2 ^ 53" "x = of_int m * pow2 k" "1 / 2 ^ 54 \<le> x" "x \<le> 2 ^ 54"
  shows "to_double x = Some x"
  using to_double_mid [OF assms(4,5)] fl_exact [OF assms(1-3)] by simp

lemma percentage_2_4:
  "percentage 2 4 = Some (js ''50.0'')"
proof -
  have a: "number_of_nat 2 = Some 2"
    "number_of_nat 4 = Some 4"
    using number_of_nat_exact [of 2] number_of_nat_exact [of 4]
    by simp_all
  have q: "fl (1 / 2) = 1 / 2"
    using fl_eval [of "1 / 2" "- 1" 4503599627370496]
    by (simp add: pow2_def)
  have d: "number_div 2 4 = Some (1 / 2)"
    using to_double_mid [of "1 / 2"]
    by (simp add: number_div_def q)
  have p: "fl (50) = 50"
    using fl_eval [of "50" "5" 7036874417766400]
    by (simp add: pow2_def)
  have m: "number_mul (1 / 2) 100 = Some (50)"
    using to_double_mid [of "50"]
    by (simp add: number_mul_def p)
  have n: "\<lfloor>(1001 / 2 :: rat)\<rfloor> = 500"
    by (rule floor_unique) simp_all
  have o: "one_decimal 500 = js ''50.0''"
    by (simp add: one_decimal_def digits_large digits_small digit_def js_def)
  have f: "toFixed 1 (50) = Some (js ''50.0'')"
    using toFixed_1 [of "50"] by (simp add: n o)
  show ?thesis by (simp add: percentage_def a d m f del: One_nat_def)
qed

lemma percentage_1_4:
  "percentage 1 4 = Some (js ''25.0'')"
proof -
  have a: "number_of_nat 1 = Some 1"
    "number_of_nat 4 = Some 4"
    using number_of_nat_exact [of 1] number_of_nat_exact [of 4]
    by simp_all
  have q: "fl (1 / 4) = 1 / 4"
    using fl_eval [of "1 / 4" "- 2" 4503599627370496]
    by (simp add: pow2_def)
  have d: "number_div 1 4 = Some (1 / 4)"
    using to_double_mid [of "1 / 4"]
    by (simp add: number_div_def q)
  have p: "fl (25) = 25"
    using fl_eval [of "25" "4" 7036874417766400]
    by (simp add: pow2_def)
  have m: "number_mul (1 / 4) 100 = Some (25)"
    using to_double_mid [of "25"]
    by (simp add: number_mul_def p)
  have n: "\<lfloor>(501 / 2 :: rat)\<rfloor> = 250"
    by (rule floor_unique) simp_all
  have o: "one_decimal 250 = js ''25.0''"
    by (simp add: one_decimal_def digits_large digits_small digit_def js_def)
  have f: "toFixed 1 (25) = Some (js ''25.0'')"
    using toFixed_1 [of "25"] by (simp add: n o)
  show ?thesis by (simp add: percentage_def a d m f del: One_nat_def)
qed

lemma percentage_23_80:
  "percentage 23 80 = Some (js ''28.7'')"
proof -
  have a: "number_of_nat 23 = Some 23"
    "number_of_nat 80 = Some 80"
    using number_of_nat_exact [of 23] number_of_nat_exact [of 80]
    by simp_all
  have q: "fl (23 / 80) = 2589569785738035 / 9007199254740992"
    using fl_eval [of "23 / 80" "- 2" 5179139571476070]
    by (simp add: pow2_def)
  have d: "number_div 23 80 = Some (2589569785738035 / 9007199254740992)"
    using to_double_mid [of "23 / 80"]
    by (simp add: number_div_def q)
  have p: "fl (64739244643450875 / 2251799813685248) = 8092405580431359 / 281474976710656"
    using fl_eval [of "64739244643450875 / 2251799813685248" "4" 8092405580431359]
    by (simp add: pow2_def)
  have m: "number_mul (2589569785738035 / 9007199254740992) 100 = Some (8092405580431359 / 281474976710656)"
    using to_double_mid [of "64739244643450875 / 2251799813685248"]
    by (simp add: number_mul_def p)
  have n: "\<lfloor>(40532396646334459 / 140737488355328 :: rat)\<rfloor> = 287"
    by (rule floor_unique) simp_all
  have o: "one_decimal 287 = js ''28.7''"
    by (simp add: one_decimal_def digits_large digits_small digit_def js_def)
  have f: "toFixed 1 (8092405580431359 / 281474976710656) = Some (js ''28.7'')"
    using toFixed_1 [of "8092405580431359 / 281474976710656"] by (simp add: n o)
  show ?thesis by (simp add: percentage_def a d m f del: One_nat_def)
qed

lemma percentage_large:
  "percentage 943500000000001 1000000000000001 = Some (js ''94.3'')"
proof -
  have a: "number_of_nat 943500000000001 = Some 943500000000001"
    "number_of_nat 1000000000000001 = Some 1000000000000001"
    using number_of_nat_exact [of 943500000000001] number_of_nat_exact [of 1000000000000001]
    by simp_all
  have q: "fl (943500000000001 / 1000000000000001) = 4249146248424063 / 4503599627370496"
    using fl_eval [of "943500000000001 / 1000000000000001" "- 1" 8498292496848126]
    by (simp add: pow2_def)
  have d: "number_div 943500000000001 1000000000000001 = Some (4249146248424063 / 4503599627370496)"
    using to_double_mid [of "943500000000001 / 1000000000000001"]
    by (simp add: number_div_def q)
  have p: "fl (106228656210601575 / 1125899906842624) = 3319645506581299 / 35184372088832"
    using fl_eval [of "106228656210601575 / 1125899906842624" "6" 6639291013162598]
    by (simp add: pow2_def)
  have m: "number_mul (4249146248424063 / 4503599627370496) 100 = Some (3319645506581299 / 35184372088832)"
    using to_double_mid [of "106228656210601575 / 1125899906842624"]
    by (simp add: number_mul_def p)
  have n: "\<lfloor>(16607023625928703 / 17592186044416 :: rat)\<rfloor> = 943"
    by (rule floor_unique) simp_all
  have o: "one_decimal 943 = js ''94.3''"
    by (simp add: one_decimal_def digits_large digits_small digit_def js_def)
  have f: "toFixed 1 (3319645506581299 / 35184372088832) = Some (js ''94.3'')"
    using toFixed_1 [of "3319645506581299 / 35184372088832"] by (simp add: n o)
  show ?thesis by (simp add: percentage_def a d m f del: One_nat_def)
qed

lemma percentage_57_80:
  "percentage 57 80 = Some (js ''71.3'')"
proof -
  have a: "number_of_nat 57 = Some 57"
    "number_of_nat 80 = Some 80"
    using number_of_nat_exact [of 57] number_of_nat_exact [of 80]
    by simp_all
  have q: "fl (57 / 80) = 6417629469002957 / 9007199254740992"
    using fl_eval [of "57 / 80" "- 1" 6417629469002957]
    by (simp add: pow2_def)
  have d: "number_div 57 80 = Some (6417629469002957 / 9007199254740992)"
    using to_double_mid [of "57 / 80"]
    by (simp add: number_div_def q)
  have p: "fl (160440736725073925 / 2251799813685248) = 285 / 4"
    using fl_eval [of "160440736725073925 / 2251799813685248" "6" 5013773022658560]
    by (simp add: pow2_def)
  have m: "number_mul (6417629469002957 / 9007199254740992) 100 = Some (285 / 4)"
    using to_double_mid [of "160440736725073925 / 2251799813685248"]
    by (simp add: number_mul_def p)
  have n: "\<lfloor>(713 :: rat)\<rfloor> = 713"
    by (rule floor_unique) simp_all
  have o: "one_decimal 713 = js ''71.3''"
    by (simp add: one_decimal_def digits_large digits_small digit_def js_def)
  have f: "toFixed 1 (285 / 4) = Some (js ''71.3'')"
    using toFixed_1 [of "285 / 4"] by (simp add: n o)
  show ?thesis by (simp add: percentage_def a d m f del: One_nat_def)
qed



section \<open>Properties of the frontend\<close>

lemma substring_prefix: "n \<le> length s \<Longrightarrow> substring s 0 n = take n s"
  by (simp add: substring_def Let_def min_def)

text \<open>
  C10. In the admin feedback table a comment longer than 100 code units is shown as its
  first 100 code units followed by three full stops; a comment of at most 100 code units
  is shown as it is.
\<close>

theorem display_comment_truncates:
  "(100 < length comment \<longrightarrow> display_comment comment = take 100 comment @ js ''...'') \<and>
   (length comment \<le> 100 \<longrightarrow> display_comment comment = comment)"
  by (simp add: display_comment_def substring_prefix)

theorem display_comment_truncates_witness:
  "100 < length (replicate 101 (0x61 :: code_unit)) \<and>
   display_comment (replicate 101 0x61) = replicate 100 0x61 @ js ''...'' \<and>
   length (js ''fine'') \<le> 100 \<and> display_comment (js ''fine'') = js ''fine''"
  using display_comment_truncates [of "replicate 101 0x61"]
    display_comment_truncates [of "js ''fine''"]
  by (simp add: js_def)

subsection \<open>The feedback form\<close>

lemma fb_rating_response:
  "fb_rating (fb_formData (fb_handleResponse r st)) \<le> fb_rating (fb_formData st)"
  by (cases r) simp_all

lemma fb_rating_submit:
  "fb_rating (fb_formData (fst (fb_handleSubmit type_error_message user st))) =
     fb_rating (fb_formData st)"
  by (simp add: fb_handleSubmit_def Let_def split: option.splits)

lemma fb_rating_reachable: "fb_reachable st \<Longrightarrow> fb_rating (fb_formData st) \<le> 5"
proof (induction rule: fb_reachable.induct)
  case (fb_reach_response st r)
  then show ?case using fb_rating_response [of r st] by simp
next
  case (fb_reach_submit st type_error_message user)
  then show ?case by (simp add: fb_rating_submit)
qed (auto simp: fb_initial_def fb_handleChange_def fb_handleRatingClick_def)

lemma fb_valid_iff:
  "fb_no_errors (fb_validateForm fd) \<longleftrightarrow>
     fb_rating fd \<noteq> 0 \<and> 5 \<le> length (trim (fb_comment fd))"
  by (auto simp: fb_no_errors_def fb_validateForm_def)

text \<open>
  C8, with the condition on the user. In every state the feedback page can reach,
  \<open>handleSubmit\<close> issues the \<open>submitFeedback\<close> request exactly when the \<open>user\<close> prop is not
  \<open>null\<close>, the rating is one of 1..5 and the trimmed comment has at least 5 code units.
  When the rating or the comment fails, the errors of \<open>validateForm\<close> (at least one) are
  recorded in the state. When both pass and \<open>user\<close> is \<open>null\<close>, no field error is recorded,
  the message of the TypeError (or the default message) is shown and the loading flag is
  cleared. The list of stored feedbacks is as before in every case.
\<close>

theorem feedback_submit_gate:
  assumes "fb_reachable st"
  shows "(snd (fb_handleSubmit type_error_message user st) \<noteq> None) =
           (user \<noteq> None \<and> fb_rating (fb_formData st) \<in> {1..5} \<and>
            5 \<le> length (trim (fb_comment (fb_formData st)))) \<and>
         (\<not> (fb_rating (fb_formData st) \<in> {1..5} \<and>
             5 \<le> length (trim (fb_comment (fb_formData st)))) \<longrightarrow>
            \<not> fb_no_errors (fb_formErrors (fst (fb_handleSubmit type_error_message user st))) \<and>
            fb_formErrors (fst (fb_handleSubmit type_error_message user st)) =
              fb_validateForm (fb_formData st)) \<and>
         (user = None \<and> fb_rating (fb_formData st) \<in> {1..5} \<and>
            5 \<le> length (trim (fb_comment (fb_formData st))) \<longrightarrow>
            fb_no_errors (fb_formErrors (fst (fb_handleSubmit type_error_message user st))) \<and>
            fb_error (fst (fb_handleSubmit type_error_message user st)) =
              (if type_error_message = [] then js ''An error occurred. Please try again.''
               else type_error_message) \<and>
            \<not> fb_loading (fst (fb_handleSubmit type_error_message user st))) \<and>
         fb_feedbacks (fst (fb_handleSubmit type_error_message user st)) = fb_feedbacks st"
  using fb_rating_reachable [OF assms]
  by (cases user) (auto simp: fb_handleSubmit_def Let_def fb_valid_iff)

lemma fb_example_reachable: "fb_reachable fb_example"
  unfolding fb_example_def by (intro fb_reachable.intros) simp

lemma fb_example_valid:
  "fb_rating (fb_formData fb_example) = 4"
  "trim (fb_comment (fb_formData fb_example)) = js ''great''"
  by (simp_all add: fb_example_def fb_initial_def fb_handleChange_def fb_handleRatingClick_def
      js_def trim_def isWhiteSpace_def)

theorem feedback_submit_gate_witness:
  "fb_reachable fb_example \<and>
   snd (fb_handleSubmit type_error_example (Some user_example) fb_example) =
     Some \<lparr>rq_user_id = Some 7, rq_rating = 4, rq_comment = js ''great''\<rparr> \<and>
   fb_feedbacks (fst (fb_handleSubmit type_error_example (Some user_example) fb_example)) =
     fb_feedbacks fb_example \<and>
   fb_reachable fb_initial \<and>
   \<not> (fb_rating (fb_formData fb_initial) \<in> {1..5} \<and>
      5 \<le> length (trim (fb_comment (fb_formData fb_initial)))) \<and>
   snd (fb_handleSubmit type_error_example (Some user_example) fb_initial) = None \<and>
   fb_formErrors (fst (fb_handleSubmit type_error_example (Some user_example) fb_initial)) =
     \<lparr>fe_rating = Some (js ''Please select a rating''),
      fe_comment = Some (js ''Please enter your feedback'')\<rparr> \<and>
   fb_rating (fb_formData fb_example) \<in> {1..5} \<and>
   5 \<le> length (trim (fb_comment (fb_formData fb_example))) \<and>
   snd (fb_handleSubmit type_error_example None fb_example) = None \<and>
   fb_error (fst (fb_handleSubmit type_error_example None fb_example)) = type_error_example \<and>
   \<not> fb_loading (fst (fb_handleSubmit type_error_example None fb_example))"
proof -
  have v: "fb_rating (fb_formData fb_example) \<in> {1..5}"
    "5 \<le> length (trim (fb_comment (fb_formData fb_example)))"
    by (simp_all add: fb_example_valid js_def)
  have sent: "snd (fb_handleSubmit type_error_example (Some user_example) fb_example) =
      Some \<lparr>rq_user_id = Some 7, rq_rating = 4, rq_comment = js ''great''\<rparr>"
    using v by (simp add: fb_handleSubmit_def Let_def fb_valid_iff fb_example_valid
        user_example_def)
  have i: "\<not> (fb_rating (fb_formData fb_initial) \<in> {1..5} \<and>
      5 \<le> length (trim (fb_comment (fb_formData fb_initial))))"
    by (simp add: fb_initial_def)
  have errs: "fb_validateForm (fb_formData fb_initial) =
      \<lparr>fe_rating = Some (js ''Please select a rating''),
       fe_comment = Some (js ''Please enter your feedback'')\<rparr>"
    by (simp add: fb_initial_def fb_validateForm_def trim_def)
  have ne: "type_error_example \<noteq> []" by (simp add: type_error_example_def js_def)
  note A = feedback_submit_gate [OF fb_example_reachable, of type_error_example "Some user_example"]
  note B = feedback_submit_gate [OF fb_reach_initial, of type_error_example "Some user_example"]
  note C = feedback_submit_gate [OF fb_example_reachable, of type_error_example None]
  have fa: "fb_feedbacks (fst (fb_handleSubmit type_error_example (Some user_example) fb_example)) =
      fb_feedbacks fb_example"
    using A by blast
  have bn: "snd (fb_handleSubmit type_error_example (Some user_example) fb_initial) = None"
    using B i by blast
  have "fb_formErrors (fst (fb_handleSubmit type_error_example (Some user_example) fb_initial)) =
      fb_validateForm (fb_formData fb_initial)"
    using B i by blast
  then have be: "fb_formErrors
      (fst (fb_handleSubmit type_error_example (Some user_example) fb_initial)) =
      \<lparr>fe_rating = Some (js ''Please select a rating''),
       fe_comment = Some (js ''Please enter your feedback'')\<rparr>"
    by (simp only: errs)
  have cn: "snd (fb_handleSubmit type_error_example None fb_example) = None"
    using C by blast
  have "fb_error (fst (fb_handleSubmit type_error_example None fb_example)) =
      (if type_error_example = [] then js ''An error occurred. Please try again.''
       else type_error_example)"
    using C v by blast
  then have ce: "fb_error (fst (fb_handleSubmit type_error_example None fb_example)) =
      type_error_example"
    using ne by simp
  have cl: "\<not> fb_loading (fst (fb_handleSubmit type_error_example None fb_example))"
    using C v by blast
  from fb_example_reachable sent fa fb_reach_initial i bn be v cn ce cl
  show ?thesis by blast
qed

text \<open>
  C8 without the condition on the user does not hold: with a rating of 4 and the comment
  \<open>great\<close> the form is valid, but when \<open>user\<close> is \<open>null\<close> nothing is sent, and no field
  error is recorded either.
\<close>

theorem feedback_submit_null_user_counterexample:
  "fb_reachable fb_example \<and>
   fb_rating (fb_formData fb_example) \<in> {1..5} \<and>
   5 \<le> length (trim (fb_comment (fb_formData fb_example))) \<and>
   snd (fb_handleSubmit type_error_example None fb_example) = None \<and>
   fb_no_errors (fb_formErrors (fst (fb_handleSubmit type_error_example None fb_example)))"
proof -
  have v: "fb_no_errors (fb_validateForm (fb_formData fb_example))"
    by (simp add: fb_valid_iff fb_example_valid js_def)
  have "snd (fb_handleSubmit type_error_example None fb_example) = None"
    "fb_no_errors (fb_formErrors (fst (fb_handleSubmit type_error_example None fb_example)))"
    using v by (simp_all add: fb_handleSubmit_def Let_def)
  then show ?thesis
    using fb_example_reachable by (simp add: fb_example_valid js_def)
qed

subsection \<open>Login and signup\<close>

lemma dropWhile_id: "s = [] \<or> \<not> P (hd s) \<Longrightarrow> dropWhile P s = s"
  by (cases s) auto

lemma trim_id:
  "s \<noteq> [] \<Longrightarrow> \<not> isWhiteSpace (hd s) \<Longrightarrow> \<not> isWhiteSpace (last s) \<Longrightarrow> trim s = s"
  by (simp add: trim_def dropWhile_id hd_rev)

lemma takeWhile_dropWhile_split: "dropWhile P s = c # d \<Longrightarrow> s = takeWhile P s @ c # d"
  by (metis takeWhile_dropWhile_id)

text \<open>
  The test of the signup page's regular expression, stated as the language of the
  expression: one or more plain units, an \<open>@\<close>, one or more plain units, a full stop,
  one or more plain units.
\<close>

lemma emailRegex_test_iff:
  "emailRegex_test s \<longleftrightarrow>
     (\<exists>a b c. s = a @ 0x40 # b @ 0x2E # c \<and> a \<noteq> [] \<and> b \<noteq> [] \<and> c \<noteq> [] \<and>
        list_all email_plain a \<and> list_all email_plain b \<and> list_all email_plain c)"
proof
  assume t: "emailRegex_test s"
  then obtain d where d: "dropWhile email_plain s = 0x40 # d"
    and a: "takeWhile email_plain s \<noteq> []"
    and pd: "list_all email_plain d" and dot: "0x2E \<in> set (butlast (tl d))"
    by (auto simp: emailRegex_test_def split: list.splits)
  from dot obtain x d' where d1: "d = x # d'" by (cases d) auto
  with dot have "0x2E \<in> set (butlast d')" by simp
  then obtain y d'' where d2: "d' = d'' @ [y]" "0x2E \<in> set d''"
    by (cases d' rule: rev_cases) auto
  then obtain u v where uv: "d'' = u @ 0x2E # v" by (meson split_list)
  have s: "s = takeWhile email_plain s @ 0x40 # (x # u) @ 0x2E # (v @ [y])"
    using takeWhile_dropWhile_split [OF d] d1 d2 uv by simp
  have "list_all email_plain (takeWhile email_plain s)"
    by (simp add: list_all_iff) (meson set_takeWhileD)
  moreover have "list_all email_plain (x # u)" "list_all email_plain (v @ [y])"
    using pd d1 d2 uv by simp_all
  ultimately show "\<exists>a b c. s = a @ 0x40 # b @ 0x2E # c \<and> a \<noteq> [] \<and> b \<noteq> [] \<and> c \<noteq> [] \<and>
        list_all email_plain a \<and> list_all email_plain b \<and> list_all email_plain c"
    using s a by blast
next
  assume "\<exists>a b c. s = a @ 0x40 # b @ 0x2E # c \<and> a \<noteq> [] \<and> b \<noteq> [] \<and> c \<noteq> [] \<and>
        list_all email_plain a \<and> list_all email_plain b \<and> list_all email_plain c"
  then obtain a b c where s: "s = a @ 0x40 # b @ 0x2E # c"
    and ne: "a \<noteq> []" "b \<noteq> []" "c \<noteq> []"
    and pl: "list_all email_plain a" "list_all email_plain b" "list_all email_plain c"
    by blast
  have na: "\<not> email_plain 0x40" by (simp add: email_plain_def)
  have pdot: "email_plain 0x2E" by (simp add: email_plain_def isWhiteSpace_def)
  have tw: "takeWhile email_plain s = a"
    and dw: "dropWhile email_plain s = 0x40 # b @ 0x2E # c"
    using s pl(1) na by (simp_all add: list_all_iff takeWhile_append2 dropWhile_append2)
  obtain x b' where b: "b = x # b'" using ne(2) by (cases b) auto
  obtain c' y where c: "c = c' @ [y]" using ne(3) by (cases c rule: rev_cases) auto
  have "butlast (tl (b @ 0x2E # c)) = b' @ 0x2E # c'"
    using b c by (simp add: butlast_append)
  then show "emailRegex_test s"
    using tw dw ne(1) pl pdot by (simp add: emailRegex_test_def)
qed

text \<open>
  What \<open>trim\<close> does: it removes a run of white space at each end and nothing else, and
  what is left neither starts nor ends with white space.
\<close>

lemma trim_ends:
  "trim s \<noteq> [] \<Longrightarrow> \<not> isWhiteSpace (hd (trim s)) \<and> \<not> isWhiteSpace (last (trim s))"
proof -
  assume ne: "trim s \<noteq> []"
  let ?r = "dropWhile isWhiteSpace (rev (dropWhile isWhiteSpace s))"
  have r: "?r \<noteq> []" using ne by (simp add: trim_def)
  then have l: "\<not> isWhiteSpace (hd ?r)" by (rule hd_dropWhile)
  have "last ?r = last (rev (dropWhile isWhiteSpace s))"
    using r by (metis last_appendR takeWhile_dropWhile_id)
  moreover have d: "dropWhile isWhiteSpace s \<noteq> []"
  proof
    assume "dropWhile isWhiteSpace s = []"
    then have "?r = []" by (simp only: rev.simps dropWhile.simps)
    with r show False by simp
  qed
  ultimately have "last ?r = hd (dropWhile isWhiteSpace s)" by (simp add: last_rev)
  moreover have "\<not> isWhiteSpace (hd (dropWhile isWhiteSpace s))" using d by (rule hd_dropWhile)
  ultimately show ?thesis using l r by (simp add: trim_def hd_rev last_rev)
qed

lemma trim_split:
  "\<exists>pre post. s = pre @ trim s @ post \<and> list_all isWhiteSpace pre \<and> list_all isWhiteSpace post"
proof -
  let ?d = "dropWhile isWhiteSpace s"
  have 1: "s = takeWhile isWhiteSpace s @ ?d" by simp
  have "rev (rev ?d) = rev (takeWhile isWhiteSpace (rev ?d) @ dropWhile isWhiteSpace (rev ?d))"
    by (simp only: takeWhile_dropWhile_id)
  then have 2: "?d = trim s @ rev (takeWhile isWhiteSpace (rev ?d))"
    by (simp only: rev_append rev_rev_ident trim_def)
  have "list_all isWhiteSpace (takeWhile isWhiteSpace s)"
    "list_all isWhiteSpace (rev (takeWhile isWhiteSpace (rev ?d)))"
    by (auto simp: list_all_iff dest: set_takeWhileD)
  moreover have "s = takeWhile isWhiteSpace s @ trim s @ rev (takeWhile isWhiteSpace (rev ?d))"
    using 1 2 by metis
  ultimately show ?thesis by blast
qed

text \<open>
  An email that passes the signup page's regular expression holds no white space, so
  trimming leaves it as it is.
\<close>

lemma emailRegex_test_trim:
  assumes "emailRegex_test s"
  shows "trim s = s"
proof -
  from assms obtain a b c where s: "s = a @ 0x40 # b @ 0x2E # c"
    and ne: "a \<noteq> []" "c \<noteq> []"
    and pl: "list_all email_plain a" "list_all email_plain c"
    by (auto simp: emailRegex_test_iff)
  have "hd s = hd a" "last s = last c" using s ne by simp_all
  moreover have "email_plain (hd a)" "email_plain (last c)"
    using ne pl by (simp_all add: list_all_iff)
  ultimately have "\<not> isWhiteSpace (hd s)" "\<not> isWhiteSpace (last s)"
    by (simp_all add: email_plain_def)
  moreover have "s \<noteq> []" using s by simp
  ultimately show ?thesis by (simp add: trim_id)
qed

text \<open>
  On a string of ASCII code units \<open>toLowerCase\<close> leaves no uppercase letter.
\<close>

lemma toLowerCase_ascii:
  assumes "list_all (\<lambda>c. c < 0x80) s"
  shows "toLowerCase unicode_lower s = map ascii_lower s"
    and "list_all (\<lambda>c. \<not> (0x41 \<le> c \<and> c \<le> 0x5A)) (toLowerCase unicode_lower s)"
proof -
  show e: "toLowerCase unicode_lower s = map ascii_lower s"
    using assms by (simp add: toLowerCase_def)
  have "\<not> (0x41 \<le> ascii_lower c \<and> ascii_lower c \<le> 0x5A)" if "c < 0x80" for c :: code_unit
    using that by (auto simp: ascii_lower_def word_le_nat_alt word_less_nat_alt unat_word_ariths)
  then show "list_all (\<lambda>c. \<not> (0x41 \<le> c \<and> c \<le> 0x5A)) (toLowerCase unicode_lower s)"
    using assms by (simp add: e list_all_iff)
qed

text \<open>
  C9. A login or signup submission that passes \<open>validateForm\<close> issues a request, and the
  email of that request is the entered email with the surrounding white space trimmed
  and then lowercased.
\<close>

theorem submitted_email_normalised:
  "(login_no_errors (login_validateForm (lg_formData st)) \<longrightarrow>
      (\<exists>rq. snd (login_handleSubmit unicode_lower st) = Some rq \<and>
            si_email rq = toLowerCase unicode_lower (trim (lg_email (lg_formData st))))) \<and>
   (signup_no_errors (signup_validateForm (su_formData st')) \<longrightarrow>
      (\<exists>rq. snd (signup_handleSubmit unicode_lower st') = Some rq \<and>
            sr_email rq = toLowerCase unicode_lower (trim (su_email (su_formData st')))))"
  by (simp add: login_handleSubmit_def signup_handleSubmit_def Let_def)

lemma login_example_valid: "login_no_errors (login_validateForm (lg_formData login_example))"
  by (simp add: login_example_def login_no_errors_def login_validateForm_def js_def trim_def
      isWhiteSpace_def)

lemma signup_example_valid:
  "signup_no_errors (signup_validateForm (su_formData signup_example))"
  by (simp add: signup_example_def signup_no_errors_def signup_validateForm_def js_def
      trim_def isWhiteSpace_def emailRegex_test_def email_plain_def)

theorem submitted_email_normalised_witness:
  "login_no_errors (login_validateForm (lg_formData login_example)) \<and>
   map_option si_email (snd (login_handleSubmit (\<lambda>s. s) login_example)) =
     Some (js ''john@example.com'') \<and>
   signup_no_errors (signup_validateForm (su_formData signup_example)) \<and>
   map_option sr_email (snd (signup_handleSubmit (\<lambda>s. s) signup_example)) =
     Some (js ''john@example.com'')"
proof -
  have l: "toLowerCase (\<lambda>s. s) (trim (lg_email (lg_formData login_example))) =
      js ''john@example.com''"
    by (simp add: login_example_def js_def trim_def toLowerCase_def ascii_lower_def
        isWhiteSpace_def)
  have s: "toLowerCase (\<lambda>s. s) (trim (su_email (su_formData signup_example))) =
      js ''john@example.com''"
    by (simp add: signup_example_def js_def trim_def toLowerCase_def ascii_lower_def
        isWhiteSpace_def)
  show ?thesis
    using submitted_email_normalised [of login_example "\<lambda>s. s" signup_example]
      login_example_valid signup_example_valid l s
    by auto
qed

subsection \<open>The sentiment analysis summary\<close>

text \<open>
  C2. When \<open>Total\<close> is zero the percentage cells are not rendered and no percentage is
  evaluated, so nothing is divided by zero; a summary whose counts add up to a \<open>Total\<close> of
  zero has a zero count for each of the three classes.
\<close>

theorem no_percentages_without_records:
  "(s_Total s = 0 \<longrightarrow> summary_percentages s = None) \<and>
   (s_Total s = 0 \<longrightarrow> s_Positive s + s_Negative s + s_Neutral s = s_Total s \<longrightarrow>
      s_Positive s = 0 \<and> s_Negative s = 0 \<and> s_Neutral s = 0)"
  by (simp add: summary_percentages_def)

theorem no_percentages_without_records_witness:
  "s_Total summary_initial = 0 \<and>
   s_Positive summary_initial + s_Negative summary_initial + s_Neutral summary_initial =
     s_Total summary_initial \<and>
   summary_percentages summary_initial = None \<and>
   s_Positive summary_initial = 0 \<and> s_Negative summary_initial = 0 \<and>
   s_Neutral summary_initial = 0"
  using no_percentages_without_records [of summary_initial]
  by (simp add: summary_initial_def)

lemma percent_cell_nearest:
  assumes "0 < tot" "tot < 2 ^ 53" "cnt \<le> 2 * 10 ^ 12"
  shows "\<exists>n. percent_cell cnt tot = Some (one_decimal n @ js ''%'') \<and> nearest_tenth n cnt tot"
  using percentage_rounds [OF assms] by (auto simp: percent_cell_def nearest_tenth_def)

text \<open>
  C1, for counts of at most \<open>2 \<times> 10^12\<close>. For every summary with a positive \<open>Total\<close>
  below \<open>2^53\<close> and class counts of at most \<open>2 \<times> 10^12\<close>, the dashboard shows, for
  each class, a numeral with exactly one decimal place followed by a percent sign, and the
  value of that numeral is within 0.05 of \<open>count / Total \<times> 100\<close>: it is a nearest
  one-decimal value. At an exact tie the double arithmetic decides the side: 23 of 80
  (28.75) is shown as 28.7 and 57 of 80 (71.25) as 71.3.
\<close>

theorem summary_percentages_nearest_tenth:
  assumes "0 < s_Total s" "s_Total s < 2 ^ 53"
    and "s_Positive s \<le> 2 * 10 ^ 12" "s_Negative s \<le> 2 * 10 ^ 12" "s_Neutral s \<le> 2 * 10 ^ 12"
  shows "\<exists>p n u.
           summary_percentages s =
             Some (Some (one_decimal p @ js ''%''), Some (one_decimal n @ js ''%''),
                   Some (one_decimal u @ js ''%'')) \<and>
           nearest_tenth p (s_Positive s) (s_Total s) \<and>
           nearest_tenth n (s_Negative s) (s_Total s) \<and>
           nearest_tenth u (s_Neutral s) (s_Total s)"
proof -
  from percent_cell_nearest [OF assms(1,2,3)] obtain p where
    p: "percent_cell (s_Positive s) (s_Total s) = Some (one_decimal p @ js ''%'')"
       "nearest_tenth p (s_Positive s) (s_Total s)" by blast
  from percent_cell_nearest [OF assms(1,2,4)] obtain n where
    n: "percent_cell (s_Negative s) (s_Total s) = Some (one_decimal n @ js ''%'')"
       "nearest_tenth n (s_Negative s) (s_Total s)" by blast
  from percent_cell_nearest [OF assms(1,2,5)] obtain u where
    u: "percent_cell (s_Neutral s) (s_Total s) = Some (one_decimal u @ js ''%'')"
       "nearest_tenth u (s_Neutral s) (s_Total s)" by blast
  have "summary_percentages s =
      Some (Some (one_decimal p @ js ''%''), Some (one_decimal n @ js ''%''),
            Some (one_decimal u @ js ''%''))"
    using assms(1) p(1) n(1) u(1) by (simp add: summary_percentages_def)
  with p(2) n(2) u(2) show ?thesis by blast
qed

lemma percentage_0_80: "percentage 0 80 = Some (js ''0.0'')"
  using percentage_zero [of 80]
  by (simp add: one_decimal_def digits_small digit_def js_def)

theorem summary_percentages_nearest_tenth_witness:
  "0 < s_Total summary_example \<and> s_Total summary_example < 2 ^ 53 \<and>
   s_Positive summary_example \<le> 2 * 10 ^ 12 \<and> s_Negative summary_example \<le> 2 * 10 ^ 12 \<and>
   s_Neutral summary_example \<le> 2 * 10 ^ 12 \<and>
   summary_percentages summary_example =
     Some (Some (js ''28.7%''), Some (js ''71.3%''), Some (js ''0.0%'')) \<and>
   nearest_tenth 287 23 80 \<and> nearest_tenth 713 57 80 \<and> nearest_tenth 0 0 80"
proof -
  have v: "summary_percentages summary_example =
      Some (Some (js ''28.7%''), Some (js ''71.3%''), Some (js ''0.0%''))"
    by (simp add: summary_percentages_def summary_example_def percent_cell_def
        percentage_23_80 percentage_57_80 percentage_0_80 js_def)
  have n: "nearest_tenth 287 23 80" "nearest_tenth 713 57 80" "nearest_tenth 0 0 80"
    by (simp_all add: nearest_tenth_def)
  show ?thesis
    using summary_percentages_nearest_tenth [of summary_example] v n
    by (simp add: summary_example_def)
qed

text \<open>
  C1 without a bound on the counts does not hold: for 943500000000001 Positive of
  1000000000000001 feedbacks the exact percentage is 94.35000000000000565, so 94.4 is the
  nearest one-decimal value. The quotient rounds to the double 0.9435 and the product to
  the double 94.35, whose exact value 94.3499999999999943 lies below the tie, and the
  dashboard shows 94.3.
\<close>

theorem summary_percentages_large_counterexample:
  "0 < s_Total summary_large \<and>
   s_Positive summary_large + s_Negative summary_large + s_Neutral summary_large =
     s_Total summary_large \<and>
   map_option fst (summary_percentages summary_large) = Some (Some (js ''94.3%'')) \<and>
   \<not> nearest_tenth 943 (s_Positive summary_large) (s_Total summary_large) \<and>
   nearest_tenth 944 (s_Positive summary_large) (s_Total summary_large)"
  by (simp add: summary_percentages_def summary_large_def percent_cell_def percentage_large
      nearest_tenth_def js_def)

section \<open>Properties of the sentiment pipeline and the aggregation\<close>

lemma length_transform: "length (transform text vocab) = length vocab"
  by (simp add: transform_def)

lemma classifier_fit_Inr:
  "classifier_fit examples = Inr m \<Longrightarrow>
     examples \<noteq> [] \<and> n_features m = length (fst (hd examples)) \<and>
     class_log_prior m = (\<lambda>c. ln (prior examples c)) \<and>
     feature_log_prob m =
       (\<lambda>c. map (\<lambda>i. ln (likelihood (n_features m) examples c i)) [0..<n_features m])"
  by (auto simp: classifier_fit_def split: list.splits prod.splits)

lemma service_init_Inr:
  assumes "service_init corpus = Inr svc"
  shows "vocabulary svc = vectorizer_fit (map fst corpus)"
    and "classifier_fit (training_examples corpus) = Inr (classifier svc)"
    and "n_features (classifier svc) = length (vocabulary svc)"
proof -
  from assms obtain m where m: "classifier_fit (training_examples corpus) = Inr m"
    and svc: "svc = \<lparr>vocabulary = vectorizer_fit (map fst corpus), classifier = m\<rparr>"
    by (auto simp: service_init_def split: sum.splits)
  show "vocabulary svc = vectorizer_fit (map fst corpus)" using svc by simp
  show "classifier_fit (training_examples corpus) = Inr (classifier svc)" using m svc by simp
  from classifier_fit_Inr [OF m] have ne: "training_examples corpus \<noteq> []"
    and n: "n_features m = length (fst (hd (training_examples corpus)))" by simp_all
  from ne obtain x xs where c: "corpus = x # xs"
    by (cases corpus) (auto simp: training_examples_def)
  show "n_features (classifier svc) = length (vocabulary svc)"
    using n svc c by (simp add: training_examples_def length_transform split: prod.splits)
qed

lemma argmax_first_max: "f c \<le> f (argmax_first f)"
  by (cases c) (auto simp: argmax_first_def class_order_def)

lemma argmax_first_tie:
  "f c = f (argmax_first f) \<Longrightarrow> precedence (argmax_first f) \<le> precedence c"
  by (cases c) (auto simp: argmax_first_def class_order_def precedence_def split: if_splits)

lemma precedence_values: "precedence Positive = 0" "precedence Negative = 1" "precedence Neutral = 2"
  by (simp_all add: precedence_def class_order_def)

lemma transform_oov:
  assumes "set (tokenize text) \<inter> set vocab = {}"
  shows "transform text vocab = replicate (length vocab) 0"
proof -
  have "\<forall>t \<in> set vocab. count_list (tokenize text) t = 0"
    using assms by (auto simp: count_list_0_iff)
  then show ?thesis
    by (simp add: transform_def map_replicate_const [symmetric] cong: map_cong)
qed

lemma score_zero: "score m (replicate n 0) c = class_log_prior m c"
proof -
  have "filter (\<lambda>(x, lp). x \<noteq> 0) (zip (replicate n (0::nat)) ys) = []" for ys :: "real list"
    by (auto simp: filter_empty_conv dest!: set_zip_leftD)
  then show ?thesis by (simp add: score_def)
qed

lemma likelihood_pos: "0 < n \<Longrightarrow> 0 < likelihood n examples c i"
  by (simp add: likelihood_def add_pos_nonneg)

lemma corpus_example_vocabulary:
  "vectorizer_fit (map fst corpus_example) =
     [''i'', ''love'', ''this'', ''product'', ''it'', ''s'', ''amazing'', ''terrible'',
      ''experience'', ''complete'', ''waste'', ''of'', ''money'', ''the'', ''is'', ''okay'',
      ''nothing'', ''special'']"
  by (simp add: corpus_example_def vectorizer_fit_def tokenize_def lower_char_def is_alnum_def
      add_token_def)

lemma service_example_init: "service_init corpus_example = Inr service_example"
proof -
  have "\<exists>svc. service_init corpus_example = Inr svc"
    by (simp add: service_init_def classifier_fit_def training_examples_def class_examples_def
        class_order_def corpus_example_def split: sum.splits)
  then show ?thesis by (auto simp: service_example_def)
qed

lemma service_example_prior:
  "class_log_prior (classifier service_example) = (\<lambda>c. ln (1 / 3))"
proof -
  have p: "prior (training_examples corpus_example) c = 1 / 3" for c
    by (cases c) (simp_all add: prior_def training_examples_def corpus_example_def class_examples_def)
  show ?thesis
    using classifier_fit_Inr [OF service_init_Inr(2) [OF service_example_init]] by (simp add: p)
qed

lemma service_example_features: "n_features (classifier service_example) = 18"
  using service_init_Inr(1,3) [OF service_example_init] by (simp add: corpus_example_vocabulary)

lemma tokenize_empty: "tokenize [] = []"
  by (simp add: tokenize_def)

lemma corpus_skewed_vocabulary:
  "vectorizer_fit (map fst corpus_skewed) = [''good'', ''bad'', ''awful'', ''ok'', ''fine'']"
  by (simp add: corpus_skewed_def vectorizer_fit_def tokenize_def lower_char_def is_alnum_def
      add_token_def)

lemma service_skewed_init: "service_init corpus_skewed = Inr service_skewed"
proof -
  have "\<exists>svc. service_init corpus_skewed = Inr svc"
    by (simp add: service_init_def classifier_fit_def training_examples_def class_examples_def
        class_order_def corpus_skewed_def split: sum.splits)
  then show ?thesis by (auto simp: service_skewed_def)
qed

lemma service_skewed_prior:
  "class_log_prior (classifier service_skewed) Positive = ln (1 / 5)"
  "class_log_prior (classifier service_skewed) Negative = ln (2 / 5)"
  "class_log_prior (classifier service_skewed) Neutral = ln (2 / 5)"
proof -
  have p: "prior (training_examples corpus_skewed) Positive = 1 / 5"
    "prior (training_examples corpus_skewed) Negative = 2 / 5"
    "prior (training_examples corpus_skewed) Neutral = 2 / 5"
    by (simp_all add: prior_def training_examples_def corpus_skewed_def class_examples_def)
  show "class_log_prior (classifier service_skewed) Positive = ln (1 / 5)"
    "class_log_prior (classifier service_skewed) Negative = ln (2 / 5)"
    "class_log_prior (classifier service_skewed) Neutral = ln (2 / 5)"
    using classifier_fit_Inr [OF service_init_Inr(2) [OF service_skewed_init]] by (simp_all add: p)
qed

lemma service_skewed_features: "n_features (classifier service_skewed) = 5"
  using service_init_Inr(1,3) [OF service_skewed_init] by (simp add: corpus_skewed_vocabulary)

lemma count_list_labels:
  "count_list labels Positive + count_list labels Negative + count_list labels Neutral = length labels"
proof (induction labels)
  case (Cons a labels)
  then show ?case by (cases a) simp_all
qed simp

text \<open>
  C3. Once the service has been initialised, \<open>classify\<close> returns one of the three labels
  for every text (the empty text and arbitrary bytes included): it is never undefined and
  raises no error.
\<close>

theorem classify_total:
  assumes "service_init corpus = Inr svc"
  shows "classify svc text \<in> {Some Positive, Some Negative, Some Neutral}"
proof -
  have "length (transform text (vocabulary svc)) = n_features (classifier svc)"
    using service_init_Inr(3) [OF assms] by (simp add: length_transform)
  then obtain l where "classify svc text = Some l" by (simp add: classify_def predict_def)
  then show ?thesis by (cases l) simp_all
qed

theorem classify_total_witness:
  "service_init corpus_example = Inr service_example \<and>
   classify service_example [] \<in> {Some Positive, Some Negative, Some Neutral} \<and>
   classify service_example ''Awful! Don't buy this, it's a scam.''
     \<in> {Some Positive, Some Negative, Some Neutral}"
  using service_example_init classify_total [OF service_example_init] by simp

text \<open>
  C4. For every feature vector of the model's length, \<open>predict\<close> returns a class of
  maximum score, and among the classes tied at the maximum the first one in the order
  Positive, Negative, Neutral.
\<close>

theorem predict_tie_break:
  assumes "length v = n_features m"
  shows "\<exists>l. predict m v = Some l \<and> (\<forall>c. score m v c \<le> score m v l) \<and>
             (\<forall>c. score m v c = score m v l \<longrightarrow> precedence l \<le> precedence c)"
  using assms argmax_first_max [of "score m v"] argmax_first_tie [of "score m v"]
  by (simp add: predict_def)

theorem predict_tie_break_witness:
  "length (replicate 18 (0::nat)) = n_features (classifier service_example) \<and>
   score (classifier service_example) (replicate 18 0) Negative =
     score (classifier service_example) (replicate 18 0) Positive \<and>
   score (classifier service_example) (replicate 18 0) Neutral =
     score (classifier service_example) (replicate 18 0) Positive \<and>
   predict (classifier service_example) (replicate 18 0) = Some Positive \<and>
   length (replicate 5 (0::nat)) = n_features (classifier service_skewed) \<and>
   score (classifier service_skewed) (replicate 5 0) Positive <
     score (classifier service_skewed) (replicate 5 0) Negative \<and>
   score (classifier service_skewed) (replicate 5 0) Neutral =
     score (classifier service_skewed) (replicate 5 0) Negative \<and>
   predict (classifier service_skewed) (replicate 5 0) = Some Negative"
proof -
  let ?m = "classifier service_example" and ?v = "replicate 18 (0::nat)"
  have len: "length ?v = n_features ?m" by (simp add: service_example_features)
  have sc: "score ?m ?v c = ln (1 / 3)" for c
    by (simp only: score_zero service_example_prior)
  from predict_tie_break [OF len] obtain l where l: "predict ?m ?v = Some l"
    and tie: "\<forall>c. score ?m ?v c = score ?m ?v l \<longrightarrow> precedence l \<le> precedence c" by blast
  from tie sc have "precedence l \<le> precedence Positive" by simp
  then have "l = Positive" by (cases l) (simp_all add: precedence_values)
  with l len sc have first: "length ?v = n_features ?m \<and>
      score ?m ?v Negative = score ?m ?v Positive \<and>
      score ?m ?v Neutral = score ?m ?v Positive \<and> predict ?m ?v = Some Positive"
    by simp
  let ?m' = "classifier service_skewed" and ?v' = "replicate 5 (0::nat)"
  have len': "length ?v' = n_features ?m'" by (simp add: service_skewed_features)
  have sc': "score ?m' ?v' Positive = ln (1 / 5)" "score ?m' ?v' Negative = ln (2 / 5)"
    "score ?m' ?v' Neutral = ln (2 / 5)"
    by (simp_all only: score_zero service_skewed_prior)
  have lt: "ln (1 / 5 :: real) < ln (2 / 5)" by simp
  from predict_tie_break [OF len'] obtain l' where l': "predict ?m' ?v' = Some l'"
    and mx: "\<forall>c. score ?m' ?v' c \<le> score ?m' ?v' l'"
    and tie': "\<forall>c. score ?m' ?v' c = score ?m' ?v' l' \<longrightarrow> precedence l' \<le> precedence c"
    by blast
  have "l' \<noteq> Positive" using mx [rule_format, of Negative] sc' lt by auto
  moreover have "l' \<noteq> Neutral"
    using tie' [rule_format, of Negative] sc' by (auto simp: precedence_values)
  ultimately have "l' = Negative" by (cases l') simp_all
  with l' len' sc' lt have second: "length ?v' = n_features ?m' \<and>
      score ?m' ?v' Positive < score ?m' ?v' Negative \<and>
      score ?m' ?v' Neutral = score ?m' ?v' Negative \<and> predict ?m' ?v' = Some Negative"
    by simp
  from first second show ?thesis by simp
qed

text \<open>
  C5. For a text none of whose tokens is in the vocabulary (the empty text is one),
  \<open>transform\<close> gives the all-zero vector of the vocabulary's length and \<open>classify\<close>
  returns the class chosen by the class priors alone; every stored log likelihood is the
  logarithm of a smoothed likelihood that is greater than zero.
\<close>

theorem unseen_tokens_fall_back_to_priors:
  assumes "service_init corpus = Inr svc"
    and "set (tokenize text) \<inter> set (vocabulary svc) = {}"
  shows "transform text (vocabulary svc) = replicate (length (vocabulary svc)) 0 \<and>
         classify svc text = Some (argmax_first (class_log_prior (classifier svc))) \<and>
         (\<forall>c. \<forall>i < length (vocabulary svc).
            feature_log_prob (classifier svc) c ! i =
              ln (likelihood (length (vocabulary svc)) (training_examples corpus) c i) \<and>
            0 < likelihood (length (vocabulary svc)) (training_examples corpus) c i)"
proof -
  let ?n = "length (vocabulary svc)"
  have n: "n_features (classifier svc) = ?n" by (rule service_init_Inr(3) [OF assms(1)])
  have z: "transform text (vocabulary svc) = replicate ?n 0" by (rule transform_oov [OF assms(2)])
  have "score (classifier svc) (replicate ?n 0) = class_log_prior (classifier svc)"
    by (rule ext) (rule score_zero)
  then have c: "classify svc text = Some (argmax_first (class_log_prior (classifier svc)))"
    by (simp add: classify_def predict_def z n)
  have f: "feature_log_prob (classifier svc) =
      (\<lambda>c. map (\<lambda>i. ln (likelihood ?n (training_examples corpus) c i)) [0..<?n])"
    using classifier_fit_Inr [OF service_init_Inr(2) [OF assms(1)]] n by simp
  have p: "0 < likelihood ?n (training_examples corpus) c i" if "i < ?n" for c i
    using that by (intro likelihood_pos) auto
  show ?thesis using z c p by (simp add: f)
qed

theorem unseen_tokens_fall_back_to_priors_witness:
  "service_init corpus_example = Inr service_example \<and>
   set (tokenize ''Great quality and fast delivery. Recommended!'') \<inter>
     set (vocabulary service_example) = {} \<and>
   transform ''Great quality and fast delivery. Recommended!'' (vocabulary service_example) =
     replicate 18 0 \<and>
   classify service_example ''Great quality and fast delivery. Recommended!'' = Some Positive \<and>
   set (tokenize []) \<inter> set (vocabulary service_example) = {} \<and>
   classify service_example [] = Some Positive \<and>
   0 < likelihood 18 (training_examples corpus_example) Negative 0"
proof -
  let ?t = "''Great quality and fast delivery. Recommended!''"
  have v: "vocabulary service_example =
     [''i'', ''love'', ''this'', ''product'', ''it'', ''s'', ''amazing'', ''terrible'',
      ''experience'', ''complete'', ''waste'', ''of'', ''money'', ''the'', ''is'', ''okay'',
      ''nothing'', ''special'']"
    using service_init_Inr(1) [OF service_example_init] by (simp add: corpus_example_vocabulary)
  have t: "tokenize ?t = [''great'', ''quality'', ''and'', ''fast'', ''delivery'', ''recommended'']"
    by (simp add: tokenize_def lower_char_def is_alnum_def)
  have d: "set (tokenize ?t) \<inter> set (vocabulary service_example) = {}"
    by (simp add: v t)
  have e: "set (tokenize []) \<inter> set (vocabulary service_example) = {}"
    by (simp add: tokenize_empty)
  have a: "argmax_first (class_log_prior (classifier service_example)) = Positive"
    by (simp add: service_example_prior argmax_first_def class_order_def)
  have l: "length (vocabulary service_example) = 18" by (simp add: v)
  show ?thesis
    using unseen_tokens_fall_back_to_priors [OF service_example_init d]
      unseen_tokens_fall_back_to_priors [OF service_example_init e]
      service_example_init d e a l
    by simp
qed

text \<open>
  C7. \<open>summarize\<close> returns the number of occurrences of each of the three labels;
  \<open>Total\<close> is the length of the input and the sum of the three counts. The summary of
  Positive, Positive, Negative, Neutral is 2, 1, 1 of 4, which the dashboard shows as
  50.0%, 25.0% and 25.0%.
\<close>

theorem summarize_counts:
  "s_Positive (summarize labels) = count_list labels Positive \<and>
   s_Negative (summarize labels) = count_list labels Negative \<and>
   s_Neutral (summarize labels) = count_list labels Neutral \<and>
   s_Total (summarize labels) = length labels \<and>
   s_Total (summarize labels) =
     s_Positive (summarize labels) + s_Negative (summarize labels) + s_Neutral (summarize labels) \<and>
   summarize [Positive, Positive, Negative, Neutral] =
     \<lparr>s_Positive = 2, s_Negative = 1, s_Neutral = 1, s_Total = 4\<rparr> \<and>
   summary_percentages (summarize [Positive, Positive, Negative, Neutral]) =
     Some (Some (js ''50.0%''), Some (js ''25.0%''), Some (js ''25.0%''))"
proof -
  have e: "summarize [Positive, Positive, Negative, Neutral] =
      \<lparr>s_Positive = 2, s_Negative = 1, s_Neutral = 1, s_Total = 4\<rparr>"
    by (simp add: summarize_def)
  have p: "summary_percentages \<lparr>s_Positive = 2, s_Negative = 1, s_Neutral = 1, s_Total = 4\<rparr> =
      Some (Some (js ''50.0%''), Some (js ''25.0%''), Some (js ''25.0%''))"
    by (simp add: summary_percentages_def percent_cell_def percentage_2_4 percentage_1_4 js_def
        del: One_nat_def)
  have g: "s_Positive (summarize labels) = count_list labels Positive"
    "s_Negative (summarize labels) = count_list labels Negative"
    "s_Neutral (summarize labels) = count_list labels Neutral"
    "s_Total (summarize labels) = length labels"
    by (simp_all add: summarize_def)
  show ?thesis
    unfolding g e p using count_list_labels [of labels] by simp
qed

text \<open>The summary of no records is the dashboard's initial summary: all counts zero.\<close>

lemma summarize_empty: "summarize [] = summary_initial"
  by (simp add: summarize_def summary_initial_def)

end
